theory Spec2Isabelle
  imports Complex_Main
begin

section \<open>Objects, references and numbers\<close>

text \<open>
  The stack view compares objects with \<open>===\<close>, that is by reference. Objects that the
  view never mutates (routes, descriptors, scenes, the route array, the descriptor map)
  are modelled as records that carry the reference of the object next to its contents,
  so that \<open>===\<close> is equality of the tagged records. Animated values are mutated by the
  animation driver, so they live in a heap and are named by their reference.
  JavaScript numbers are modelled as reals (no NaN, no infinities).
\<close>

type_synonym ref = nat

record Heap =
  next_ref :: ref
  animated :: "ref \<rightharpoonup> real"

text \<open>\<open>new Animated.Value(v)\<close>: a fresh cell holding \<open>v\<close>.\<close>

definition new_Animated_Value :: "real \<Rightarrow> Heap \<Rightarrow> ref \<times> Heap" where
  "new_Animated_Value v h =
     (next_ref h, h\<lparr>next_ref := Suc (next_ref h), animated := (animated h)(next_ref h \<mapsto> v)\<rparr>)"

text \<open>An object literal: a fresh reference.\<close>

definition new_object :: "Heap \<Rightarrow> ref \<times> Heap" where
  "new_object h = (next_ref h, h\<lparr>next_ref := Suc (next_ref h)\<rparr>)"

text \<open>\<open>xs[i]\<close> is \<open>undefined\<close> out of range.\<close>

definition nth_opt :: "'a list \<Rightarrow> nat \<Rightarrow> 'a option" where
  "nth_opt xs i = (if i < length xs then Some (xs ! i) else None)"

subsection \<open>Plain objects used as dictionaries\<close>

text \<open>
  The progress map, the header heights and the descriptor map are plain objects, read
  with \<open>obj[key]\<close>. Such a read finds the object's own property, and for a key without
  one the member of \<open>Object.prototype\<close> of that name, if there is one
  (\<open>({})['constructor']\<close> is the function \<open>Object\<close>). A dictionary is modelled by the
  map of its own properties that hold values of its type, and a read has three outcomes.
\<close>

definition Object_prototype :: "string list" where
  "Object_prototype =
     [''constructor'', ''hasOwnProperty'', ''isPrototypeOf'', ''propertyIsEnumerable'',
      ''toLocaleString'', ''toString'', ''valueOf'', ''__proto__'',
      ''__defineGetter__'', ''__defineSetter__'', ''__lookupGetter__'', ''__lookupSetter__'']"

datatype 'a property = NoProperty | OwnProperty 'a | PrototypeMember string

text \<open>\<open>obj[key]\<close>; \<open>NoProperty\<close> is \<open>undefined\<close>.\<close>

definition read_property :: "(string \<rightharpoonup> 'a) \<Rightarrow> string \<Rightarrow> 'a property" where
  "read_property m k =
     (case m k of
        Some v \<Rightarrow> OwnProperty v
      | None \<Rightarrow> if k \<in> set Object_prototype then PrototypeMember k else NoProperty)"

text \<open>
  The members of \<open>Object.prototype\<close> are functions (and, for \<open>__proto__\<close>, the prototype
  itself): truthy, different from every number, and without a property \<open>options\<close>.
  Where the code copies such a member into a new dictionary
  (\<open>acc[key] = previous[key] || ...\<close>), the model leaves the new map without an entry
  for the key: the new object reads as the same member at that key, whether it holds the
  copy or inherits it. The code only reads these objects by key, or spreads the header
  heights into a new object, which reads the same at every key.

  The assignment \<open>acc['__proto__'] = v\<close> does not create a property. It calls the
  setter of \<open>Object.prototype\<close>, which ignores a number and makes an object the
  prototype of \<open>acc\<close>; reading \<open>acc['__proto__']\<close> then returns that object. For a map
  of objects the entry at \<open>__proto__\<close> therefore stands for a prototype that was set;
  the model does not follow the chain of such a prototype for other keys, and no state
  derived from a new component has one.
\<close>

text \<open>\<open>acc[key] = v\<close> for a number \<open>v\<close>.\<close>

definition assign_number :: "(string \<rightharpoonup> real) \<Rightarrow> string \<Rightarrow> real \<Rightarrow> (string \<rightharpoonup> real)" where
  "assign_number acc k v = (if k = ''__proto__'' then acc else acc(k \<mapsto> v))"

text \<open>\<open>a || b\<close> on objects (every object and every function is truthy, \<open>undefined\<close> is falsy).\<close>

definition or_object :: "'a property \<Rightarrow> 'a property \<Rightarrow> 'a property" where
  "or_object a b = (case a of NoProperty \<Rightarrow> b | _ \<Rightarrow> a)"


section \<open>Data model\<close>

record NavigationRoute =
  route_ref :: ref
  key :: string

record RouteArray =
  array_ref :: ref
  items :: "NavigationRoute list"

record Layout =
  width :: real
  height :: real

record EdgeInsets =
  top_inset :: real

datatype Mode = Card | Modal

datatype HeaderMode = Float | Screen | HeaderNone

datatype OS = ios | android | other_os

text \<open>
  Transition specs, interpolators and gesture settings are configuration objects and
  functions of modules outside this file; the view only passes them on, so each is a
  name.
\<close>

datatype TransitionSpec = TransitionSpec string
datatype CardStyleInterpolator = CardStyleInterpolator string
datatype HeaderStyleInterpolator = HeaderStyleInterpolator string
datatype GestureDirection = GestureDirection string
datatype GestureResponseDistance = GestureResponseDistance string
datatype HeaderOption = HeaderNull | HeaderRender string

record TransitionPreset =
  gestureDirection :: GestureDirection
  transitionSpec :: TransitionSpec
  cardStyleInterpolator :: CardStyleInterpolator
  headerStyleInterpolator :: HeaderStyleInterpolator

text \<open>The options of a descriptor that the stack view reads; \<open>None\<close> is \<open>undefined\<close>.\<close>

record NavigationStackOptions =
  animationEnabled :: "bool option"
  header :: "HeaderOption option"
  headerShown :: "bool option"
  gestureResponseDistance :: "GestureResponseDistance option"
  gestureDirection :: "GestureDirection option"
  transitionSpec :: "TransitionSpec option"
  cardStyleInterpolator :: "CardStyleInterpolator option"
  headerStyleInterpolator :: "HeaderStyleInterpolator option"
  gestureVelocityImpact :: "real option"

definition empty_options :: NavigationStackOptions where
  "empty_options =
     \<lparr>animationEnabled = None, header = None, headerShown = None,
      NavigationStackOptions.gestureResponseDistance = None,
      NavigationStackOptions.gestureDirection = None,
      NavigationStackOptions.transitionSpec = None,
      NavigationStackOptions.cardStyleInterpolator = None,
      NavigationStackOptions.headerStyleInterpolator = None,
      NavigationStackOptions.gestureVelocityImpact = None\<rparr>"

record Descriptor =
  descriptor_ref :: ref
  options :: NavigationStackOptions

text \<open>The descriptor map is an object with one property for each route key.\<close>

record SceneDescriptorMap =
  map_ref :: ref
  entries :: "(string \<times> Descriptor) list"

text \<open>The own property of the descriptor map for a key.\<close>

definition lookup :: "SceneDescriptorMap \<Rightarrow> string \<Rightarrow> Descriptor option" where
  "lookup m k = map_of (entries m) k"

text \<open>\<open>descriptors[key]\<close>\<close>

definition descriptor_at :: "SceneDescriptorMap \<Rightarrow> string \<Rightarrow> Descriptor property" where
  "descriptor_at m k = read_property (lookup m) k"

text \<open>\<open>Object.freeze({ options: {} })\<close>, created once when the module is loaded.\<close>

definition FALLBACK_DESCRIPTOR :: Descriptor where
  "FALLBACK_DESCRIPTOR = \<lparr>descriptor_ref = 0, options = empty_options\<rparr>"

type_synonym ProgressValues = "string \<rightharpoonup> ref"

record SceneProgress =
  current :: "ref property"
  "next" :: "ref property"
  previous :: "ref property"

record HeaderScene =
  scene_ref :: ref
  route :: NavigationRoute
  previous :: "NavigationRoute option"
  descriptor :: "Descriptor property"
  progress :: SceneProgress

record NavigationStackProp =
  state_routes :: "NavigationRoute list"
  state_index :: nat

text \<open>The props and the state of the component (callbacks that no rule reads are left out).\<close>

record Props =
  mode :: Mode
  insets :: "EdgeInsets option"
  navigation :: NavigationStackProp
  descriptors :: SceneDescriptorMap
  routes :: RouteArray
  openingRoutesKeys :: "string list"
  closingRoutesKeys :: "string list"
  getGesturesEnabled :: "NavigationRoute \<Rightarrow> bool"
  headerMode :: HeaderMode

record State =
  routes :: RouteArray
  descriptors :: SceneDescriptorMap
  scenes :: "HeaderScene list"
  progress :: ProgressValues
  layout :: Layout
  floatingHeaderHeights :: "string \<rightharpoonup> real"

text \<open>
  What the module imports and reads from its host: the platform, the window size at
  load time, and the presets and the interpolator of the transition modules.
\<close>

record Env =
  Platform_OS :: OS
  Platform_isPad :: bool
  window :: Layout
  DefaultTransition :: TransitionPreset
  ModalTransition :: TransitionPreset
  forNoAnimation :: HeaderStyleInterpolator

section \<open>Header heights\<close>

text \<open>
  In \<open>previous[curr.key] || defaultHeaderHeight\<close> a height of 0 is falsy, and a member of
  \<open>Object.prototype\<close> is truthy and is what the new object then holds at the key.
\<close>

definition getDefaultHeaderHeight :: "Env \<Rightarrow> Layout \<Rightarrow> EdgeInsets option \<Rightarrow> real" where
  "getDefaultHeaderHeight env = (\<lambda>layout insets.
      let isLandscape = (width layout > height layout);
          headerHeight =
            (if Platform_OS env = ios then
               (if isLandscape \<and> \<not> Platform_isPad env then 32 else 44)
             else if Platform_OS env = android then 56
             else 64)
      in headerHeight + (case insets of Some i \<Rightarrow> top_inset i | None \<Rightarrow> 0))"

definition getFloatingHeaderHeights ::
  "Env \<Rightarrow> NavigationRoute list \<Rightarrow> EdgeInsets option \<Rightarrow> Layout \<Rightarrow> (string \<rightharpoonup> real) \<Rightarrow> (string \<rightharpoonup> real)"
where
  "getFloatingHeaderHeights env = (\<lambda>routes insets layout previous.
      let defaultHeaderHeight = getDefaultHeaderHeight env layout insets
      in fold (\<lambda>curr acc.
                 case read_property previous (key curr) of
                   OwnProperty x \<Rightarrow>
                     assign_number acc (key curr) (if x = 0 then defaultHeaderHeight else x)
                 | NoProperty \<Rightarrow> assign_number acc (key curr) defaultHeaderHeight
                 | PrototypeMember m \<Rightarrow> acc)
           routes Map.empty)"

section \<open>Deriving the state from the props\<close>

text \<open>
  The callback of the \<open>reduce\<close> that builds the progress map. A member of
  \<open>Object.prototype\<close> found at the key is truthy: no animated value is created and the
  new map reads as that member at the key. The argument of \<open>new Animated.Value\<close> is
  evaluated only when the progress map has nothing at the key; the key then names no
  member of \<open>Object.prototype\<close>, so \<open>descriptor\<close> is a descriptor or \<open>undefined\<close> there.
\<close>

definition progress_reducer ::
  "Props \<Rightarrow> State \<Rightarrow> NavigationRoute \<Rightarrow> ProgressValues \<times> Heap \<Rightarrow> ProgressValues \<times> Heap"
where
  "progress_reducer props state = (\<lambda>curr (acc, h).
     let descriptor = descriptor_at (Props.descriptors props) (key curr)
     in (case read_property (State.progress state) (key curr) of
           OwnProperty v \<Rightarrow> (acc(key curr \<mapsto> v), h)
         | PrototypeMember m \<Rightarrow> (acc, h)
         | NoProperty \<Rightarrow>
             (let (v, h') = new_Animated_Value
                    (if key curr \<in> set (openingRoutesKeys props) \<and>
                        (case descriptor of
                           OwnProperty d \<Rightarrow> animationEnabled (options d) \<noteq> Some False
                         | _ \<Rightarrow> False)
                     then 0 else 1) h
              in (acc(key curr \<mapsto> v), h'))))"

text \<open>
  The object literal \<open>scene\<close> in the callback of the \<open>map\<close> that builds the scenes;
  \<open>r\<close> is the reference of the new object.
\<close>

definition new_scene ::
  "Props \<Rightarrow> State \<Rightarrow> ProgressValues \<Rightarrow> NavigationRoute list \<Rightarrow> NavigationRoute \<Rightarrow> nat \<Rightarrow> ref
     \<Rightarrow> HeaderScene"
where
  "new_scene props state = (\<lambda>progress self route index r.
     let previousRoute = (if index = 0 then None else nth_opt self (index - 1));
         nextRoute = nth_opt self (index + 1);
         current = read_property progress (key route);
         previous =
           (case previousRoute of
              Some p \<Rightarrow> read_property progress (key p)
            | None \<Rightarrow> NoProperty);
         next =
           (case nextRoute of
              Some n \<Rightarrow> read_property progress (key n)
            | None \<Rightarrow> NoProperty);
         oldScene = nth_opt (scenes state) index
     in \<lparr>scene_ref = r,
         route = route,
         HeaderScene.previous = previousRoute,
         descriptor =
           or_object (descriptor_at (Props.descriptors props) (key route))
             (or_object (descriptor_at (State.descriptors state) (key route))
                (case oldScene of
                   Some old \<Rightarrow> descriptor old
                 | None \<Rightarrow> OwnProperty FALLBACK_DESCRIPTOR)),
         HeaderScene.progress =
           \<lparr>current = current, next = next, SceneProgress.previous = previous\<rparr>\<rparr>)"

text \<open>The callback itself: the new scene, or the old scene at the index when nothing changed.\<close>

definition make_scene ::
  "Props \<Rightarrow> State \<Rightarrow> ProgressValues \<Rightarrow> NavigationRoute list \<Rightarrow> NavigationRoute \<Rightarrow> nat \<Rightarrow> Heap
     \<Rightarrow> HeaderScene \<times> Heap"
where
  "make_scene props state = (\<lambda>progress self route index h.
     let oldScene = nth_opt (scenes state) index;
         (r, h') = new_object h;
         scene = new_scene props state progress self route index r
     in (case oldScene of
           Some old \<Rightarrow>
             if HeaderScene.route scene = HeaderScene.route old \<and>
                SceneProgress.current (HeaderScene.progress scene) =
                  SceneProgress.current (HeaderScene.progress old) \<and>
                SceneProgress.next (HeaderScene.progress scene) =
                  SceneProgress.next (HeaderScene.progress old) \<and>
                SceneProgress.previous (HeaderScene.progress scene) =
                  SceneProgress.previous (HeaderScene.progress old) \<and>
                descriptor scene = descriptor old
             then (old, h')
             else (scene, h')
         | None \<Rightarrow> (scene, h')))"

text \<open>\<open>Array.prototype.map\<close> with the index, threading the heap.\<close>

fun map_index ::
  "('a \<Rightarrow> nat \<Rightarrow> Heap \<Rightarrow> 'b \<times> Heap) \<Rightarrow> 'a list \<Rightarrow> nat \<Rightarrow> Heap \<Rightarrow> 'b list \<times> Heap"
where
  "map_index f [] i h = ([], h)"
| "map_index f (x # xs) i h =
     (let (y, h1) = f x i h;
          (ys, h2) = map_index f xs (Suc i) h1
      in (y # ys, h2))"

text \<open>
  The result is the state after React has merged the returned object into the previous
  state (\<open>layout\<close> is not part of the returned object); \<open>None\<close> is \<open>null\<close>: no change.
\<close>

definition getDerivedStateFromProps :: "Env \<Rightarrow> Props \<Rightarrow> State \<Rightarrow> Heap \<Rightarrow> State option \<times> Heap" where
  "getDerivedStateFromProps env props state h =
     (if Props.routes props = State.routes state \<and>
         Props.descriptors props = State.descriptors state
      then (None, h)
      else
        (let (progress, h1) =
               fold (progress_reducer props state) (items (Props.routes props)) (Map.empty, h);
             (scenes, h2) =
               map_index (make_scene props state progress (items (Props.routes props)))
                 (items (Props.routes props)) 0 h1
         in (Some
               \<lparr>State.routes = Props.routes props,
                State.descriptors = Props.descriptors props,
                scenes = scenes,
                progress = progress,
                layout = layout state,
                floatingHeaderHeights =
                  getFloatingHeaderHeights env (items (Props.routes props)) (insets props)
                    (layout state) (floatingHeaderHeights state)\<rparr>,
             h2)))"

text \<open>The state of a freshly constructed component.\<close>

definition initial_state :: "Env \<Rightarrow> Props \<Rightarrow> ref \<Rightarrow> State" where
  "initial_state env props r =
     \<lparr>State.routes = \<lparr>array_ref = r, items = []\<rparr>,
      State.descriptors = Props.descriptors props,
      scenes = [],
      progress = Map.empty,
      layout = window env,
      floatingHeaderHeights = Map.empty\<rparr>"

text \<open>React derives the state before every render; \<open>null\<close> keeps the state.\<close>

definition derive_step :: "Env \<Rightarrow> Props \<Rightarrow> State \<times> Heap \<Rightarrow> State \<times> Heap" where
  "derive_step env props = (\<lambda>(state, h).
     case getDerivedStateFromProps env props state h of
       (None, h') \<Rightarrow> (state, h')
     | (Some state', h') \<Rightarrow> (state', h'))"

definition derive_all :: "Env \<Rightarrow> Props list \<Rightarrow> State \<times> Heap \<Rightarrow> State \<times> Heap" where
  "derive_all env propss sh = fold (derive_step env) propss sh"

section \<open>Layout handlers\<close>

text \<open>
  \<open>None\<close>: the handler returns without calling \<open>setState\<close>. In
  \<open>previousHeight && previousHeight === height\<close> a member of \<open>Object.prototype\<close> is
  truthy and equals no number. The object literal with a computed key defines an own
  property, whatever the key.
\<close>

definition handleLayout :: "Env \<Rightarrow> Props \<Rightarrow> State \<Rightarrow> Layout \<Rightarrow> State option" where
  "handleLayout env props state e =
     (if height e = height (layout state) \<and> width e = width (layout state) then None
      else
        (let layout' = \<lparr>width = width e, height = height e\<rparr>
         in Some (state\<lparr>layout := layout',
                        floatingHeaderHeights :=
                          getFloatingHeaderHeights env (items (Props.routes props)) (insets props)
                            layout' Map.empty\<rparr>)))"

definition handleFloatingHeaderLayout :: "State \<Rightarrow> NavigationRoute \<Rightarrow> real \<Rightarrow> State option" where
  "handleFloatingHeaderLayout state = (\<lambda>route height.
      let previousHeight = read_property (floatingHeaderHeights state) (key route)
      in if (case previousHeight of OwnProperty p \<Rightarrow> p \<noteq> 0 \<and> p = height | _ \<Rightarrow> False)
         then None
         else Some (state\<lparr>floatingHeaderHeights :=
                            (floatingHeaderHeights state)(key route \<mapsto> height)\<rparr>))"

section \<open>Rendering\<close>

text \<open>
  Animated nodes: a progress value, the constant \<open>ANIMATED_ONE\<close> (an animated value
  holding 1 that nothing writes), a number, and the \<open>eq\<close> and \<open>cond\<close> nodes of the
  animation library. \<open>Undefined\<close> stands for a progress value that the map lacks,
  \<open>NotANode\<close> for a member of \<open>Object.prototype\<close> read from the map.
\<close>

datatype Node =
    Value ref
  | ANIMATED_ONE
  | Undefined
  | NotANode string
  | Number real
  | Eq Node Node
  | Cond Node Node Node

definition node_of :: "ref property \<Rightarrow> Node" where
  "node_of v =
     (case v of
        OwnProperty r \<Rightarrow> Value r
      | NoProperty \<Rightarrow> Undefined
      | PrototypeMember m \<Rightarrow> NotANode m)"

text \<open>
  The value of a node in a heap, as the animation library evaluates it: \<open>eq\<close> is 1 or 0,
  \<open>cond\<close> takes its second argument when the condition is not 0.
\<close>

fun node_value :: "Heap \<Rightarrow> Node \<Rightarrow> real option" where
  "node_value h (Value r) = animated h r"
| "node_value h ANIMATED_ONE = Some 1"
| "node_value h Undefined = None"
| "node_value h (NotANode m) = None"
| "node_value h (Number x) = Some x"
| "node_value h (Eq a b) =
     (case node_value h a of
        None \<Rightarrow> None
      | Some x \<Rightarrow>
          (case node_value h b of
             None \<Rightarrow> None
           | Some y \<Rightarrow> Some (if x = y then 1 else 0)))"
| "node_value h (Cond c a b) =
     (case node_value h c of
        None \<Rightarrow> None
      | Some x \<Rightarrow> if x \<noteq> 0 then node_value h a else node_value h b)"

datatype error = TypeError

text \<open>A destructuring default: it applies when the option is \<open>undefined\<close>.\<close>

definition or_default :: "'a option \<Rightarrow> 'a \<Rightarrow> 'a" where
  "or_default a d = (case a of Some x \<Rightarrow> x | None \<Rightarrow> d)"

text \<open>
  \<open>d ? d.options : {}\<close> for a descriptor or \<open>undefined\<close>. A member of
  \<open>Object.prototype\<close> is truthy and has no \<open>options\<close>: the expression is \<open>undefined\<close>
  then, and destructuring it or reading a property of it throws. The callers below
  return the exception before they use \<open>options_of\<close>, so its value there is never read.
\<close>

definition options_of :: "Descriptor property \<Rightarrow> NavigationStackOptions" where
  "options_of d = (case d of OwnProperty x \<Rightarrow> options x | _ \<Rightarrow> empty_options)"

definition defaultTransitionPreset :: "Env \<Rightarrow> Props \<Rightarrow> TransitionPreset" where
  "defaultTransitionPreset env props =
     (let preset = (if Props.mode props = Modal then ModalTransition env else DefaultTransition env)
      in if Props.headerMode props = Screen
         then preset\<lparr>TransitionPreset.headerStyleInterpolator := forNoAnimation env\<rparr>
         else preset)"

record TransitionConfig =
  transitionSpec :: TransitionSpec
  cardStyleInterpolator :: CardStyleInterpolator
  headerStyleInterpolator :: HeaderStyleInterpolator

text \<open>The props given to \<open>StackItem\<close> (callbacks and options passed on as they are left out).\<close>

record StackItem =
  index :: nat
  active :: bool
  focused :: bool
  closing :: bool
  layout :: Layout
  current :: "ref property"
  scene :: HeaderScene
  previousScene :: "HeaderScene option"
  floatingHeaderHeight :: "real property"
  headerShown :: bool
  headerMode :: HeaderMode
  gestureDirection :: GestureDirection
  transitionSpec :: TransitionSpec
  cardStyleInterpolator :: CardStyleInterpolator
  headerStyleInterpolator :: HeaderStyleInterpolator
  gestureEnabled :: bool
  gestureResponseDistance :: "GestureResponseDistance option"
  gestureVelocityImpact :: "real option"

text \<open>The props given to \<open>MaybeScreen\<close> and its child.\<close>

record MaybeScreen =
  screen_key :: string
  enabled :: bool
  active :: Node
  children :: StackItem

text \<open>The argument of \<open>renderHeader\<close>.\<close>

record HeaderContainerProps =
  mode :: HeaderMode
  layout :: Layout
  scenes :: "HeaderScene list"
  styleInterpolator :: HeaderStyleInterpolator

record Rendered =
  screens :: "MaybeScreen list"
  floatingHeader :: "HeaderContainerProps option"

definition isScreenActive :: "Env \<Rightarrow> nat \<Rightarrow> NavigationRoute list \<Rightarrow> Node \<Rightarrow> Node" where
  "isScreenActive env = (\<lambda>index self next.
     if int index = int (length self) - 1 then Number 1
     else if Platform_OS env = android then Cond (Eq next (Number 1)) (Number 0) (Number 1)
     else if int index = int (length self) - 2 then Number 1
     else Number 0)"

text \<open>
  The callback of \<open>routes.map\<close> in \<open>render\<close>. Reading \<open>scene.descriptor\<close> of a scene
  that the state lacks throws, and so does destructuring the options of a scene or of a
  next scene whose descriptor is a member of \<open>Object.prototype\<close>.
\<close>

definition render_route ::
  "Env \<Rightarrow> Props \<Rightarrow> State \<Rightarrow> NavigationRoute \<Rightarrow> NavigationRoute \<Rightarrow> nat \<Rightarrow> NavigationRoute list
     \<Rightarrow> error + MaybeScreen"
where
  "render_route env props state focusedRoute = (\<lambda>route index self.
     let focused = (key focusedRoute = key route);
         current = read_property (State.progress state) (key route);
         scene_at_index = nth_opt (State.scenes state) index;
         next = (case nth_opt self (index + 1) of
                   Some r \<Rightarrow> node_of (read_property (State.progress state) (key r))
                 | None \<Rightarrow> ANIMATED_ONE)
     in (case scene_at_index of
           None \<Rightarrow> Inl TypeError
         | Some found \<Rightarrow>
           (case descriptor found of
              PrototypeMember m \<Rightarrow> Inl TypeError
            | _ \<Rightarrow>
             (let scene = found;
                  opts = options_of (descriptor scene);
                  gestureDirection =
                    or_default (NavigationStackOptions.gestureDirection opts)
                      (TransitionPreset.gestureDirection (defaultTransitionPreset env props));
                  transitionSpec =
                    or_default (NavigationStackOptions.transitionSpec opts)
                      (TransitionPreset.transitionSpec (defaultTransitionPreset env props));
                  cardStyleInterpolator =
                    or_default (NavigationStackOptions.cardStyleInterpolator opts)
                      (TransitionPreset.cardStyleInterpolator (defaultTransitionPreset env props));
                  headerStyleInterpolator =
                    or_default (NavigationStackOptions.headerStyleInterpolator opts)
                      (TransitionPreset.headerStyleInterpolator (defaultTransitionPreset env props));
                  transitionConfig0 =
                    \<lparr>TransitionConfig.transitionSpec = transitionSpec,
                     TransitionConfig.cardStyleInterpolator = cardStyleInterpolator,
                     TransitionConfig.headerStyleInterpolator = headerStyleInterpolator\<rparr>;
                  transitionConfig =
                    (if int index \<noteq> int (length self) - 1 then
                       (case nth_opt (State.scenes state) (index + 1) of
                          Some nextScene \<Rightarrow>
                           (case descriptor nextScene of
                              PrototypeMember m \<Rightarrow> Inl TypeError
                            | _ \<Rightarrow>
                            (let nextOpts = options_of (descriptor nextScene)
                             in Inr
                                \<lparr>TransitionConfig.transitionSpec =
                                   or_default (NavigationStackOptions.transitionSpec nextOpts)
                                     (TransitionPreset.transitionSpec
                                        (defaultTransitionPreset env props)),
                                 TransitionConfig.cardStyleInterpolator =
                                   or_default (NavigationStackOptions.cardStyleInterpolator nextOpts)
                                     (TransitionPreset.cardStyleInterpolator
                                        (defaultTransitionPreset env props)),
                                 TransitionConfig.headerStyleInterpolator =
                                   or_default (NavigationStackOptions.headerStyleInterpolator nextOpts)
                                     (TransitionPreset.headerStyleInterpolator
                                        (defaultTransitionPreset env props))\<rparr>))
                        | None \<Rightarrow> Inr transitionConfig0)
                     else Inr transitionConfig0);
                  item =
                    \<lparr>index = index,
                     StackItem.active = (int index = int (length self) - 1),
                     focused = focused,
                     closing = (key route \<in> set (closingRoutesKeys props)),
                     StackItem.layout = State.layout state,
                     StackItem.current = current,
                     scene = scene,
                     previousScene =
                       (if index = 0 then None else nth_opt (State.scenes state) (index - 1)),
                     floatingHeaderHeight =
                       read_property (floatingHeaderHeights state) (key route),
                     headerShown =
                       (NavigationStackOptions.header opts \<noteq> Some HeaderNull \<and>
                        NavigationStackOptions.headerShown opts \<noteq> Some False),
                     StackItem.headerMode = Props.headerMode props,
                     StackItem.gestureDirection = gestureDirection,
                     StackItem.transitionSpec = transitionSpec,
                     StackItem.cardStyleInterpolator = cardStyleInterpolator,
                     StackItem.headerStyleInterpolator = headerStyleInterpolator,
                     gestureEnabled = (index \<noteq> 0 \<and> getGesturesEnabled props route),
                     StackItem.gestureResponseDistance =
                       NavigationStackOptions.gestureResponseDistance opts,
                     StackItem.gestureVelocityImpact =
                       NavigationStackOptions.gestureVelocityImpact opts\<rparr>
              in (case transitionConfig of
                    Inl e \<Rightarrow> Inl e
                  | Inr config \<Rightarrow>
                      Inr
                        \<lparr>screen_key = key route,
                         enabled = (Props.mode props \<noteq> Modal),
                         MaybeScreen.active = isScreenActive env index self next,
                         children =
                           item\<lparr>StackItem.transitionSpec :=
                                  TransitionConfig.transitionSpec config,
                                StackItem.cardStyleInterpolator :=
                                  TransitionConfig.cardStyleInterpolator config,
                                StackItem.headerStyleInterpolator :=
                                  TransitionConfig.headerStyleInterpolator config\<rparr>\<rparr>)))))"

text \<open>\<open>Array.prototype.map\<close> with the index, stopping at the first exception.\<close>

fun map_index_error ::
  "('a \<Rightarrow> nat \<Rightarrow> 'a list \<Rightarrow> error + 'b) \<Rightarrow> 'a list \<Rightarrow> nat \<Rightarrow> 'a list \<Rightarrow> error + 'b list"
where
  "map_index_error f [] i self = Inr []"
| "map_index_error f (x # xs) i self =
     (case f x i self of
        Inl e \<Rightarrow> Inl e
      | Inr y \<Rightarrow>
          (case map_index_error f xs (Suc i) self of
             Inl e \<Rightarrow> Inl e
           | Inr ys \<Rightarrow> Inr (y # ys)))"

text \<open>
  Reading \<open>focusedRoute.key\<close> throws when the navigation state has no route at its index.
  With a floating header, reading \<open>focusedOptions.headerStyleInterpolator\<close> throws when
  the descriptor map gives a member of \<open>Object.prototype\<close> for the focused route.
\<close>

definition render :: "Env \<Rightarrow> Props \<Rightarrow> State \<Rightarrow> error + Rendered" where
  "render env props state =
     (case nth_opt (state_routes (navigation props)) (state_index (navigation props)) of
        None \<Rightarrow> Inl TypeError
      | Some focusedRoute \<Rightarrow>
          (let focusedDescriptor = descriptor_at (Props.descriptors props) (key focusedRoute);
               focusedOptions = options_of focusedDescriptor
           in (case map_index_error (render_route env props state focusedRoute)
                      (items (Props.routes props)) 0 (items (Props.routes props)) of
                 Inl e \<Rightarrow> Inl e
               | Inr rendered \<Rightarrow>
                   if Props.headerMode props = Float then
                     (case focusedDescriptor of
                        PrototypeMember m \<Rightarrow> Inl TypeError
                      | _ \<Rightarrow>
                          Inr \<lparr>screens = rendered,
                               floatingHeader =
                                 Some \<lparr>HeaderContainerProps.mode = Float,
                                       HeaderContainerProps.layout = State.layout state,
                                       HeaderContainerProps.scenes = State.scenes state,
                                       styleInterpolator =
                                         (if NavigationStackOptions.headerStyleInterpolator
                                               focusedOptions \<noteq> None
                                          then the (NavigationStackOptions.headerStyleInterpolator
                                                      focusedOptions)
                                          else TransitionPreset.headerStyleInterpolator
                                                 (defaultTransitionPreset env props))\<rparr>\<rparr>)
                   else Inr \<lparr>screens = rendered, floatingHeader = None\<rparr>)))"

section \<open>A stack of four routes\<close>

text \<open>Routes \<open>B\<close> and \<open>C\<close> have descriptors; \<open>A\<close> and \<open>D\<close> have none. The last route is opening.\<close>

definition route_A :: NavigationRoute where "route_A = \<lparr>route_ref = 11, key = ''A''\<rparr>"
definition route_B :: NavigationRoute where "route_B = \<lparr>route_ref = 12, key = ''B''\<rparr>"
definition route_C :: NavigationRoute where "route_C = \<lparr>route_ref = 13, key = ''C''\<rparr>"
definition route_D :: NavigationRoute where "route_D = \<lparr>route_ref = 14, key = ''D''\<rparr>"

text \<open>A route whose key names a member of \<open>Object.prototype\<close>.\<close>

definition route_K :: NavigationRoute where
  "route_K = \<lparr>route_ref = 15, key = ''constructor''\<rparr>"

definition example_env :: "OS \<Rightarrow> Env" where
  "example_env os =
     \<lparr>Platform_OS = os, Platform_isPad = False,
      window = \<lparr>width = 375, height = 667\<rparr>,
      DefaultTransition =
        \<lparr>TransitionPreset.gestureDirection = GestureDirection ''horizontal'',
         TransitionPreset.transitionSpec = TransitionSpec ''default'',
         TransitionPreset.cardStyleInterpolator = CardStyleInterpolator ''default'',
         TransitionPreset.headerStyleInterpolator = HeaderStyleInterpolator ''default''\<rparr>,
      ModalTransition =
        \<lparr>TransitionPreset.gestureDirection = GestureDirection ''vertical'',
         TransitionPreset.transitionSpec = TransitionSpec ''modal'',
         TransitionPreset.cardStyleInterpolator = CardStyleInterpolator ''modal'',
         TransitionPreset.headerStyleInterpolator = HeaderStyleInterpolator ''modal''\<rparr>,
      forNoAnimation = HeaderStyleInterpolator ''forNoAnimation''\<rparr>"

definition descriptor_B :: Descriptor where
  "descriptor_B =
     \<lparr>descriptor_ref = 22,
      options = empty_options
        \<lparr>NavigationStackOptions.gestureDirection := Some (GestureDirection ''vertical''),
         NavigationStackOptions.transitionSpec := Some (TransitionSpec ''B''),
         NavigationStackOptions.gestureVelocityImpact := Some 0.3\<rparr>\<rparr>"

definition descriptor_C :: Descriptor where
  "descriptor_C =
     \<lparr>descriptor_ref = 23,
      options = empty_options
        \<lparr>NavigationStackOptions.transitionSpec := Some (TransitionSpec ''C''),
         NavigationStackOptions.headerStyleInterpolator := Some (HeaderStyleInterpolator ''C'')\<rparr>\<rparr>"

definition example_props :: "NavigationRoute list \<Rightarrow> Props" where
  "example_props rs =
     \<lparr>Props.mode = Card, insets = Some \<lparr>top_inset = 20\<rparr>,
      navigation = \<lparr>state_routes = rs, state_index = length rs - 1\<rparr>,
      Props.descriptors =
        \<lparr>map_ref = 30 + length rs, entries = [(''B'', descriptor_B), (''C'', descriptor_C)]\<rparr>,
      Props.routes = \<lparr>array_ref = 40 + length rs, items = rs\<rparr>,
      openingRoutesKeys = [last (map key rs)], closingRoutesKeys = [],
      getGesturesEnabled = (\<lambda>r. True),
      Props.headerMode = Float\<rparr>"

definition example_heap :: Heap where
  "example_heap = \<lparr>next_ref = 100, animated = Map.empty\<rparr>"


definition example_state :: "OS \<Rightarrow> NavigationRoute list \<Rightarrow> State" where
  "example_state os rs =
     fst (derive_step (example_env os) (example_props rs)
            (initial_state (example_env os) (example_props rs) 1, example_heap))"

definition example_state_heap :: "OS \<Rightarrow> NavigationRoute list \<Rightarrow> Heap" where
  "example_state_heap os rs =
     snd (derive_step (example_env os) (example_props rs)
            (initial_state (example_env os) (example_props rs) 1, example_heap))"

section \<open>Further definitions for the statements\<close>

text \<open>
  The argument of \<open>new Animated.Value\<close> in the reducer of the progress map, for the
  route key \<open>k\<close>.
\<close>

definition seed :: "Props \<Rightarrow> string \<Rightarrow> real" where
  "seed props k =
     (if k \<in> set (openingRoutesKeys props) \<and>
         (case descriptor_at (Props.descriptors props) k of
            OwnProperty d \<Rightarrow> animationEnabled (options d) \<noteq> Some False
          | _ \<Rightarrow> False)
      then 0 else 1)"

text \<open>The same props in a new render: the route array is a new object with the same routes.\<close>

definition example_props_again :: "NavigationRoute list \<Rightarrow> ref \<Rightarrow> Props" where
  "example_props_again rs r = (example_props rs)\<lparr>Props.routes := \<lparr>array_ref = r, items = rs\<rparr>\<rparr>"

text \<open>The state derived from \<open>[A, B]\<close>, derived once more from a new array of the same routes.\<close>

definition example_state_again :: "State \<times> Heap" where
  "example_state_again =
     derive_step (example_env ios) (example_props_again [route_A, route_B] 98)
       (example_state ios [route_A, route_B], example_state_heap ios [route_A, route_B])"

text \<open>The state derived from \<open>[B]\<close>, then from \<open>[A, D, C]\<close>.\<close>

definition example_state_next :: "State \<times> Heap" where
  "example_state_next =
     derive_step (example_env ios) (example_props [route_A, route_D, route_C])
       (example_state ios [route_B], example_state_heap ios [route_B])"

section \<open>Facts about reading dictionaries and rendering\<close>

lemma map_index_error_Inr:
  "map_index_error f xs i self = Inr ys \<Longrightarrow>
     length ys = length xs \<and> (\<forall>j<length xs. f (xs ! j) (i + j) self = Inr (ys ! j))"
proof (induction xs arbitrary: i ys)
  case Nil
  then show ?case by simp
next
  case (Cons x xs)
  from Cons.prems obtain y ys' where
    y: "f x i self = Inr y" and ys': "map_index_error f xs (Suc i) self = Inr ys'" and
    eq: "ys = y # ys'"
    by (auto split: sum.splits)
  from Cons.IH [OF ys'] have
    len: "length ys' = length xs" and
    nth: "\<forall>j<length xs. f (xs ! j) (Suc i + j) self = Inr (ys' ! j)"
    by simp_all
  show ?case
  proof (intro conjI allI impI)
    show "length ys = length (x # xs)" using len eq by simp
  next
    fix j assume "j < length (x # xs)"
    then show "f ((x # xs) ! j) (i + j) self = Inr (ys ! j)"
      using y nth eq by (cases j) simp_all
  qed
qed

lemma map_index_error_total:
  "(\<forall>j<length xs. \<exists>y. f (xs ! j) (i + j) self = Inr y) \<Longrightarrow>
     \<exists>ys. map_index_error f xs i self = Inr ys"
proof (induction xs arbitrary: i)
  case Nil
  then show ?case by simp
next
  case (Cons x xs)
  from Cons.prems [rule_format, of 0] obtain y where y: "f x i self = Inr y" by auto
  have "\<forall>j<length xs. \<exists>y. f (xs ! j) (Suc i + j) self = Inr y"
  proof (intro allI impI)
    fix j assume "j < length xs"
    then have "Suc j < length (x # xs)" by simp
    from Cons.prems [rule_format, OF this] show "\<exists>y. f (xs ! j) (Suc i + j) self = Inr y"
      by simp
  qed
  from Cons.IH [OF this] obtain ys where "map_index_error f xs (Suc i) self = Inr ys" by blast
  with y show ?case by simp
qed

lemma read_property_cases:
  "read_property m k = OwnProperty v \<longleftrightarrow> m k = Some v"
  "read_property m k = NoProperty \<longleftrightarrow> m k = None \<and> k \<notin> set Object_prototype"
  "read_property m k = PrototypeMember n \<longleftrightarrow> m k = None \<and> k \<in> set Object_prototype \<and> n = k"
  by (auto simp: read_property_def split: option.splits)

lemma descriptor_at_cases:
  "descriptor_at m k = OwnProperty d \<longleftrightarrow> lookup m k = Some d"
  "descriptor_at m k = NoProperty \<longleftrightarrow> lookup m k = None \<and> k \<notin> set Object_prototype"
  "descriptor_at m k = PrototypeMember n \<longleftrightarrow>
     lookup m k = None \<and> k \<in> set Object_prototype \<and> n = k"
  by (simp_all add: descriptor_at_def read_property_cases)

lemma render_Inr:
  assumes "render env props state = Inr out"
  shows "\<exists>focusedRoute.
           nth_opt (state_routes (navigation props)) (state_index (navigation props)) =
             Some focusedRoute \<and>
           map_index_error (render_route env props state focusedRoute)
             (items (Props.routes props)) 0 (items (Props.routes props)) = Inr (screens out) \<and>
           (Props.headerMode props = Float \<longrightarrow>
              (\<forall>m. descriptor_at (Props.descriptors props) (key focusedRoute) \<noteq>
                     PrototypeMember m)) \<and>
           floatingHeader out =
             (if Props.headerMode props = Float then
                Some \<lparr>HeaderContainerProps.mode = Float,
                      HeaderContainerProps.layout = State.layout state,
                      HeaderContainerProps.scenes = State.scenes state,
                      styleInterpolator =
                        or_default
                          (NavigationStackOptions.headerStyleInterpolator
                             (options_of
                                (descriptor_at (Props.descriptors props) (key focusedRoute))))
                          (TransitionPreset.headerStyleInterpolator
                             (defaultTransitionPreset env props))\<rparr>
              else None)"
proof -
  from assms obtain focusedRoute where
    f: "nth_opt (state_routes (navigation props)) (state_index (navigation props)) =
          Some focusedRoute"
    by (cases "nth_opt (state_routes (navigation props)) (state_index (navigation props))")
      (simp_all add: render_def)
  from assms f obtain rendered where
    m: "map_index_error (render_route env props state focusedRoute)
          (items (Props.routes props)) 0 (items (Props.routes props)) = Inr rendered"
    by (cases "map_index_error (render_route env props state focusedRoute)
          (items (Props.routes props)) 0 (items (Props.routes props))")
      (simp_all add: render_def)
  show ?thesis
  proof (cases "Props.headerMode props = Float")
    case False
    with assms f m show ?thesis by (auto simp: render_def Let_def)
  next
    case True
    show ?thesis
    proof (cases "descriptor_at (Props.descriptors props) (key focusedRoute)")
      case NoProperty
      with assms f m True show ?thesis
        by (auto simp: render_def Let_def or_default_def split: option.splits)
    next
      case (OwnProperty d)
      with assms f m True show ?thesis
        by (auto simp: render_def Let_def or_default_def split: option.splits)
    next
      case (PrototypeMember n)
      with assms f m True show ?thesis by (simp add: render_def Let_def)
    qed
  qed
qed

lemma render_screen:
  assumes "render env props state = Inr out" and "i < length (items (Props.routes props))"
  shows "\<exists>focusedRoute.
           nth_opt (state_routes (navigation props)) (state_index (navigation props)) =
             Some focusedRoute \<and>
           render_route env props state focusedRoute (items (Props.routes props) ! i) i
             (items (Props.routes props)) = Inr (screens out ! i)"
proof -
  from render_Inr [OF assms(1)] obtain focusedRoute where
    f: "nth_opt (state_routes (navigation props)) (state_index (navigation props)) =
          Some focusedRoute" and
    m: "map_index_error (render_route env props state focusedRoute)
          (items (Props.routes props)) 0 (items (Props.routes props)) = Inr (screens out)"
    by blast
  from map_index_error_Inr [OF m] assms(2) have
    "render_route env props state focusedRoute (items (Props.routes props) ! i) (0 + i)
       (items (Props.routes props)) = Inr (screens out ! i)"
    by blast
  with f show ?thesis by simp
qed

lemma render_length:
  assumes "render env props state = Inr out"
  shows "length (screens out) = length (items (Props.routes props))"
  using render_Inr [OF assms] map_index_error_Inr by blast

lemma render_route_scene:
  assumes "render_route env props state focusedRoute r i self = Inr scr"
  shows "\<exists>sc. nth_opt (State.scenes state) i = Some sc \<and>
           (\<forall>m. descriptor sc \<noteq> PrototypeMember m)"
  using assms
  by (cases "nth_opt (State.scenes state) i"; cases "descriptor (the (nth_opt (State.scenes state) i))")
    (simp_all add: render_route_def)

lemma render_route_Inr:
  assumes "render_route env props state focusedRoute r i self = Inr scr"
  shows "\<exists>sc. nth_opt (State.scenes state) i = Some sc \<and>
    StackItem.scene (children scr) = sc \<and>
    gestureEnabled (children scr) = (i \<noteq> 0 \<and> getGesturesEnabled props r) \<and>
    StackItem.gestureDirection (children scr) =
      or_default (NavigationStackOptions.gestureDirection (options_of (descriptor sc)))
        (TransitionPreset.gestureDirection (defaultTransitionPreset env props)) \<and>
    StackItem.gestureResponseDistance (children scr) =
      NavigationStackOptions.gestureResponseDistance (options_of (descriptor sc)) \<and>
    StackItem.gestureVelocityImpact (children scr) =
      NavigationStackOptions.gestureVelocityImpact (options_of (descriptor sc)) \<and>
    MaybeScreen.active scr =
      isScreenActive env i self
        (case nth_opt self (i + 1) of
           Some r' \<Rightarrow> node_of (read_property (State.progress state) (key r'))
         | None \<Rightarrow> ANIMATED_ONE)"
  using assms
  by (auto simp: render_route_def Let_def split: option.splits property.splits sum.splits)

lemma render_route_last:
  assumes "render_route env props state focusedRoute r i self = Inr scr"
    and "Suc i = length self"
    and "nth_opt (State.scenes state) i = Some sc"
  shows
    "StackItem.transitionSpec (children scr) =
       or_default (NavigationStackOptions.transitionSpec (options_of (descriptor sc)))
         (TransitionPreset.transitionSpec (defaultTransitionPreset env props)) \<and>
     StackItem.cardStyleInterpolator (children scr) =
       or_default (NavigationStackOptions.cardStyleInterpolator (options_of (descriptor sc)))
         (TransitionPreset.cardStyleInterpolator (defaultTransitionPreset env props)) \<and>
     StackItem.headerStyleInterpolator (children scr) =
       or_default (NavigationStackOptions.headerStyleInterpolator (options_of (descriptor sc)))
         (TransitionPreset.headerStyleInterpolator (defaultTransitionPreset env props))"
proof -
  from assms(2) have e: "int i = int (length self) - 1" by simp
  from assms(1,3) e show ?thesis
    by (auto simp: render_route_def Let_def split: property.splits)
qed

lemma render_route_next:
  assumes "render_route env props state focusedRoute r i self = Inr scr"
    and "Suc i < length self"
    and "nth_opt (State.scenes state) (Suc i) = Some nextScene"
  shows
    "StackItem.transitionSpec (children scr) =
       or_default (NavigationStackOptions.transitionSpec (options_of (descriptor nextScene)))
         (TransitionPreset.transitionSpec (defaultTransitionPreset env props)) \<and>
     StackItem.cardStyleInterpolator (children scr) =
       or_default
         (NavigationStackOptions.cardStyleInterpolator (options_of (descriptor nextScene)))
         (TransitionPreset.cardStyleInterpolator (defaultTransitionPreset env props)) \<and>
     StackItem.headerStyleInterpolator (children scr) =
       or_default
         (NavigationStackOptions.headerStyleInterpolator (options_of (descriptor nextScene)))
         (TransitionPreset.headerStyleInterpolator (defaultTransitionPreset env props))"
proof -
  from assms(2) have e: "int i \<noteq> int (length self) - 1" by simp
  from assms(1,3) e show ?thesis
    by (auto simp: render_route_def Let_def split: option.splits property.splits)
qed

lemma render_route_total:
  assumes "i < length (State.scenes state)"
    and "\<forall>sc\<in>set (State.scenes state). \<forall>m. descriptor sc \<noteq> PrototypeMember m"
  shows "\<exists>scr. render_route env props state focusedRoute r i self = Inr scr"
proof -
  from assms have a: "\<forall>m. descriptor (State.scenes state ! i) \<noteq> PrototypeMember m"
    by simp
  show ?thesis
  proof (cases "Suc i < length (State.scenes state)")
    case True
    with assms(2) have b: "\<forall>m. descriptor (State.scenes state ! Suc i) \<noteq> PrototypeMember m"
      by simp
    from assms(1) True a b show ?thesis
      by (cases "descriptor (State.scenes state ! i)";
          cases "descriptor (State.scenes state ! Suc i)")
        (simp_all add: render_route_def Let_def nth_opt_def)
  next
    case False
    with assms(1) a show ?thesis
      by (cases "descriptor (State.scenes state ! i)")
        (simp_all add: render_route_def Let_def nth_opt_def)
  qed
qed

lemma render_total:
  assumes "state_index (navigation props) < length (state_routes (navigation props))"
    and "length (items (Props.routes props)) \<le> length (State.scenes state)"
    and "\<forall>sc\<in>set (State.scenes state). \<forall>m. descriptor sc \<noteq> PrototypeMember m"
    and "Props.headerMode props = Float \<longrightarrow>
           key (state_routes (navigation props) ! state_index (navigation props)) \<notin>
             set Object_prototype"
  shows "\<exists>out. render env props state = Inr out"
proof -
  let ?f = "state_routes (navigation props) ! state_index (navigation props)"
  have "\<forall>j<length (items (Props.routes props)).
          \<exists>y. render_route env props state ?f
                 (items (Props.routes props) ! j) (0 + j) (items (Props.routes props)) = Inr y"
    using assms(2) render_route_total [OF _ assms(3)] by (metis add_0 less_le_trans)
  from map_index_error_total
         [of "items (Props.routes props)" "render_route env props state ?f"
             0 "items (Props.routes props)", OF this]
  obtain ys where
    m: "map_index_error (render_route env props state ?f)
       (items (Props.routes props)) 0 (items (Props.routes props)) = Inr ys"
    by blast
  show ?thesis
  proof (cases "Props.headerMode props = Float")
    case False
    with assms(1) m show ?thesis by (simp add: render_def nth_opt_def Let_def)
  next
    case True
    with assms(4) have "\<forall>m. descriptor_at (Props.descriptors props) (key ?f) \<noteq> PrototypeMember m"
      by (simp add: descriptor_at_cases)
    with True assms(1) m show ?thesis
      by (cases "descriptor_at (Props.descriptors props) (key ?f)")
        (simp_all add: render_def nth_opt_def Let_def)
  qed
qed

lemma options_of_fallback:
  "options_of (OwnProperty FALLBACK_DESCRIPTOR) = empty_options"
  by (simp add: options_of_def FALLBACK_DESCRIPTOR_def)

section \<open>Facts about the header heights\<close>

lemma proto_member: "''__proto__'' \<in> set Object_prototype"
  by (simp add: Object_prototype_def)

lemma fold_header_heights:
  "fold (\<lambda>curr acc.
           case read_property prev (key curr) of
             OwnProperty x \<Rightarrow> assign_number acc (key curr) (if x = 0 then d else x)
           | NoProperty \<Rightarrow> assign_number acc (key curr) d
           | PrototypeMember m \<Rightarrow> acc) rs acc k =
     (if k \<in> key ` set rs \<and> k \<noteq> ''__proto__'' \<and>
         (prev k \<noteq> None \<or> k \<notin> set Object_prototype)
      then Some (case prev k of None \<Rightarrow> d | Some x \<Rightarrow> if x = 0 then d else x)
      else acc k)"
proof (induction rs arbitrary: acc)
  case Nil
  then show ?case by simp
next
  case (Cons r rs)
  let ?f = "\<lambda>curr acc.
           case read_property prev (key curr) of
             OwnProperty x \<Rightarrow> assign_number acc (key curr) (if x = 0 then d else x)
           | NoProperty \<Rightarrow> assign_number acc (key curr) d
           | PrototypeMember m \<Rightarrow> acc"
  let ?rhs = "\<lambda>rs acc. (if k \<in> key ` set rs \<and> k \<noteq> ''__proto__'' \<and>
         (prev k \<noteq> None \<or> k \<notin> set Object_prototype)
      then Some (case prev k of None \<Rightarrow> d | Some x \<Rightarrow> if x = 0 then d else x)
      else acc k)"
  have unfold: "fold ?f (r # rs) acc k = ?rhs rs (?f r acc)"
    using Cons.IH [of "?f r acc"] by simp
  show ?case
  proof (cases "read_property prev (key r)")
    case NoProperty
    then have fr: "?f r acc = assign_number acc (key r) d" by simp
    from NoProperty have pr: "prev (key r) = None" "key r \<notin> set Object_prototype"
      by (simp_all add: read_property_cases)
    from pr proto_member have "key r \<noteq> ''__proto__''" by auto
    with pr show ?thesis
      unfolding unfold fr by (auto simp: assign_number_def)
  next
    case (OwnProperty x)
    then have fr: "?f r acc = assign_number acc (key r) (if x = 0 then d else x)" by simp
    from OwnProperty have pr: "prev (key r) = Some x"
      by (simp add: read_property_cases)
    then show ?thesis
      unfolding unfold fr by (auto simp: assign_number_def)
  next
    case (PrototypeMember m)
    then have fr: "?f r acc = acc" by simp
    from PrototypeMember have pr: "prev (key r) = None" "key r \<in> set Object_prototype"
      by (simp_all add: read_property_cases)
    then show ?thesis
      unfolding unfold fr by auto
  qed
qed

lemma getFloatingHeaderHeights_lookup:
  "getFloatingHeaderHeights env rs ins lay prev k =
     (if k \<in> key ` set rs \<and> k \<noteq> ''__proto__'' \<and>
         (prev k \<noteq> None \<or> k \<notin> set Object_prototype)
      then Some (case prev k of
                   None \<Rightarrow> getDefaultHeaderHeight env lay ins
                 | Some x \<Rightarrow> if x = 0 then getDefaultHeaderHeight env lay ins else x)
      else None)"
  by (simp add: getFloatingHeaderHeights_def Let_def fold_header_heights)

section \<open>Facts about the derived state\<close>

subsection \<open>The progress map\<close>

lemma progress_reducer_old:
  "State.progress state (key x) = Some v \<Longrightarrow>
     progress_reducer props state x (acc, h) = (acc(key x \<mapsto> v), h)"
  by (simp add: progress_reducer_def read_property_def)

lemma progress_reducer_member:
  "State.progress state (key x) = None \<Longrightarrow> key x \<in> set Object_prototype \<Longrightarrow>
     progress_reducer props state x (acc, h) = (acc, h)"
  by (simp add: progress_reducer_def read_property_def)

lemma progress_reducer_new:
  "State.progress state (key x) = None \<Longrightarrow> key x \<notin> set Object_prototype \<Longrightarrow>
     progress_reducer props state x (acc, h) =
       (acc(key x \<mapsto> next_ref h),
        h\<lparr>next_ref := Suc (next_ref h),
          animated := (animated h)(next_ref h \<mapsto> seed props (key x))\<rparr>)"
  by (simp add: progress_reducer_def read_property_def new_Animated_Value_def seed_def Let_def)

lemma progress_fold:
  assumes "fold (progress_reducer props state) xs (acc, h) = (acc', h')"
  shows "next_ref h \<le> next_ref h' \<and>
         (\<forall>a<next_ref h. animated h' a = animated h a) \<and>
         (\<forall>k. k \<notin> key ` set xs \<longrightarrow> acc' k = acc k) \<and>
         (\<forall>k\<in>key ` set xs.
            case State.progress state k of
              Some v \<Rightarrow> acc' k = Some v
            | None \<Rightarrow>
                if k \<in> set Object_prototype then acc' k = acc k
                else (\<exists>a. acc' k = Some a \<and> next_ref h \<le> a \<and> a < next_ref h' \<and>
                        animated h' a = Some (seed props k)))"
  using assms
proof (induction xs arbitrary: acc' h' rule: rev_induct)
  case Nil
  then show ?case by simp
next
  case (snoc x xs)
  obtain acc1 h1 where f: "fold (progress_reducer props state) xs (acc, h) = (acc1, h1)"
    by (cases "fold (progress_reducer props state) xs (acc, h)") blast
  from snoc.IH [OF f] have
    m: "next_ref h \<le> next_ref h1" and
    u: "\<forall>a<next_ref h. animated h1 a = animated h a" and
    o: "\<forall>k. k \<notin> key ` set xs \<longrightarrow> acc1 k = acc k" and
    n: "\<forall>k\<in>key ` set xs.
            case State.progress state k of
              Some v \<Rightarrow> acc1 k = Some v
            | None \<Rightarrow>
                if k \<in> set Object_prototype then acc1 k = acc k
                else (\<exists>a. acc1 k = Some a \<and> next_ref h \<le> a \<and> a < next_ref h1 \<and>
                        animated h1 a = Some (seed props k))"
    by blast+
  from snoc.prems f have step: "progress_reducer props state x (acc1, h1) = (acc', h')"
    by simp
  have goal4: "case State.progress state k of
              Some v \<Rightarrow> acc' k = Some v
            | None \<Rightarrow>
                if k \<in> set Object_prototype then acc' k = acc k
                else (\<exists>a. acc' k = Some a \<and> next_ref h \<le> a \<and> a < next_ref h' \<and>
                        animated h' a = Some (seed props k))"
    if k: "k \<in> key ` set (xs @ [x])"
      and e: "acc' = acc1 \<or> acc' = acc1(key x \<mapsto> w)"
      and kx: "k = key x \<Longrightarrow>
                 case State.progress state k of
                   Some v \<Rightarrow> acc' k = Some v
                 | None \<Rightarrow>
                     if k \<in> set Object_prototype then acc' k = acc k
                     else (\<exists>a. acc' k = Some a \<and> next_ref h \<le> a \<and> a < next_ref h' \<and>
                             animated h' a = Some (seed props k))"
      and mono: "next_ref h1 \<le> next_ref h'"
      and keep: "\<forall>a<next_ref h1. animated h' a = animated h1 a"
    for k w
  proof (cases "k = key x")
    case True
    with kx show ?thesis by blast
  next
    case False
    with k have kxs: "k \<in> key ` set xs" by auto
    from e False have same: "acc' k = acc1 k" by auto
    show ?thesis
    proof (cases "State.progress state k")
      case (Some v)
      with n kxs same show ?thesis by force
    next
      case None
      show ?thesis
      proof (cases "k \<in> set Object_prototype")
        case True
        with n kxs None same show ?thesis by force
      next
        case N: False
        with n kxs None obtain a where
          "acc1 k = Some a" "next_ref h \<le> a" "a < next_ref h1"
          "animated h1 a = Some (seed props k)"
          by force
        with same mono keep None N show ?thesis by force
      qed
    qed
  qed
  show ?case
  proof (cases "State.progress state (key x)")
    case (Some v)
    with step have e: "acc' = acc1(key x \<mapsto> v)" "h' = h1"
      by (simp_all add: progress_reducer_old)
    have 4: "\<forall>k\<in>key ` set (xs @ [x]).
            case State.progress state k of
              Some v \<Rightarrow> acc' k = Some v
            | None \<Rightarrow>
                if k \<in> set Object_prototype then acc' k = acc k
                else (\<exists>a. acc' k = Some a \<and> next_ref h \<le> a \<and> a < next_ref h' \<and>
                        animated h' a = Some (seed props k))"
    proof
      fix k assume k: "k \<in> key ` set (xs @ [x])"
      show "case State.progress state k of
              Some v \<Rightarrow> acc' k = Some v
            | None \<Rightarrow>
                if k \<in> set Object_prototype then acc' k = acc k
                else (\<exists>a. acc' k = Some a \<and> next_ref h \<le> a \<and> a < next_ref h' \<and>
                        animated h' a = Some (seed props k))"
        by (rule goal4 [OF k, of v]) (use e Some in simp_all)
    qed
    from m u o e 4 show ?thesis by auto
  next
    case None
    show ?thesis
    proof (cases "key x \<in> set Object_prototype")
      case True
      with None step have e: "acc' = acc1" "h' = h1"
        by (simp_all add: progress_reducer_member)
      have ox: "acc1 (key x) = acc (key x)"
      proof (cases "key x \<in> key ` set xs")
        case False
        with o show ?thesis by blast
      next
        case T: True
        with n None True show ?thesis by force
      qed
      have 3: "\<forall>k. k \<notin> key ` set (xs @ [x]) \<longrightarrow> acc' k = acc k" using o e by simp
      have 4: "\<forall>k\<in>key ` set (xs @ [x]).
            case State.progress state k of
              Some v \<Rightarrow> acc' k = Some v
            | None \<Rightarrow>
                if k \<in> set Object_prototype then acc' k = acc k
                else (\<exists>a. acc' k = Some a \<and> next_ref h \<le> a \<and> a < next_ref h' \<and>
                        animated h' a = Some (seed props k))"
      proof
        fix k assume k: "k \<in> key ` set (xs @ [x])"
        show "case State.progress state k of
              Some v \<Rightarrow> acc' k = Some v
            | None \<Rightarrow>
                if k \<in> set Object_prototype then acc' k = acc k
                else (\<exists>a. acc' k = Some a \<and> next_ref h \<le> a \<and> a < next_ref h' \<and>
                        animated h' a = Some (seed props k))"
          by (rule goal4 [OF k, of 0]) (use e None True ox in simp_all)
      qed
      from m u 3 4 e show ?thesis by auto
    next
      case False
      with None step have e: "acc' = acc1(key x \<mapsto> next_ref h1)"
        "h' = h1\<lparr>next_ref := Suc (next_ref h1),
               animated := (animated h1)(next_ref h1 \<mapsto> seed props (key x))\<rparr>"
        by (simp_all add: progress_reducer_new)
      have 1: "next_ref h \<le> next_ref h'" using m e by simp
      have 2: "\<forall>a<next_ref h. animated h' a = animated h a" using m u e by simp
      have 3: "\<forall>k. k \<notin> key ` set (xs @ [x]) \<longrightarrow> acc' k = acc k" using o e by simp
      have 4: "\<forall>k\<in>key ` set (xs @ [x]).
            case State.progress state k of
              Some v \<Rightarrow> acc' k = Some v
            | None \<Rightarrow>
                if k \<in> set Object_prototype then acc' k = acc k
                else (\<exists>a. acc' k = Some a \<and> next_ref h \<le> a \<and> a < next_ref h' \<and>
                        animated h' a = Some (seed props k))"
      proof
        fix k assume k: "k \<in> key ` set (xs @ [x])"
        show "case State.progress state k of
              Some v \<Rightarrow> acc' k = Some v
            | None \<Rightarrow>
                if k \<in> set Object_prototype then acc' k = acc k
                else (\<exists>a. acc' k = Some a \<and> next_ref h \<le> a \<and> a < next_ref h' \<and>
                        animated h' a = Some (seed props k))"
          by (rule goal4 [OF k, of "next_ref h1"]) (use e None False m in simp_all)
      qed
      from 1 2 3 4 show ?thesis by blast
    qed
  qed
qed

subsection \<open>The scenes\<close>

lemma make_scene_heap:
  "snd (make_scene props state prog self r i h) = h\<lparr>next_ref := Suc (next_ref h)\<rparr>"
  by (simp add: make_scene_def new_object_def Let_def split: option.splits)

lemma new_scene_fields:
  "HeaderScene.route (new_scene props state prog self r i x) = r"
  "HeaderScene.progress (new_scene props state prog self r i x) =
     \<lparr>SceneProgress.current = read_property prog (key r),
      SceneProgress.next =
        (case nth_opt self (i + 1) of
           Some n \<Rightarrow> read_property prog (key n)
         | None \<Rightarrow> NoProperty),
      SceneProgress.previous =
        (case (if i = 0 then None else nth_opt self (i - 1)) of
           Some p \<Rightarrow> read_property prog (key p)
         | None \<Rightarrow> NoProperty)\<rparr>"
  "descriptor (new_scene props state prog self r i x) =
     or_object (descriptor_at (Props.descriptors props) (key r))
       (or_object (descriptor_at (State.descriptors state) (key r))
          (case nth_opt (State.scenes state) i of
             Some old \<Rightarrow> descriptor old
           | None \<Rightarrow> OwnProperty FALLBACK_DESCRIPTOR))"
  by (simp_all add: new_scene_def Let_def)

lemma SceneProgress_eq_iff:
  "(p = q) =
     (SceneProgress.current p = SceneProgress.current q \<and>
      SceneProgress.next p = SceneProgress.next q \<and>
      SceneProgress.previous p = SceneProgress.previous q)"
  for p q :: SceneProgress
  by (cases p, cases q) auto

lemma make_scene_fst:
  "fst (make_scene props state prog self r i h) =
     (case nth_opt (State.scenes state) i of
        None \<Rightarrow> new_scene props state prog self r i (next_ref h)
      | Some old \<Rightarrow>
          if HeaderScene.route (new_scene props state prog self r i (next_ref h)) =
               HeaderScene.route old \<and>
             HeaderScene.progress (new_scene props state prog self r i (next_ref h)) =
               HeaderScene.progress old \<and>
             descriptor (new_scene props state prog self r i (next_ref h)) = descriptor old
          then old
          else new_scene props state prog self r i (next_ref h))"
proof (cases "nth_opt (State.scenes state) i")
  case None
  then show ?thesis by (simp add: make_scene_def new_object_def)
next
  case (Some old)
  then show ?thesis
    by (auto simp: make_scene_def new_object_def Let_def
          SceneProgress_eq_iff [of "HeaderScene.progress (new_scene props state prog self r i (next_ref h))"])
qed

lemma new_scene_ref:
  "HeaderScene.route (new_scene props state prog self r i x) =
     HeaderScene.route (new_scene props state prog self r i y)"
  "HeaderScene.progress (new_scene props state prog self r i x) =
     HeaderScene.progress (new_scene props state prog self r i y)"
  "descriptor (new_scene props state prog self r i x) =
     descriptor (new_scene props state prog self r i y)"
  by (simp_all only: new_scene_fields)

lemma make_scene_fields:
  "HeaderScene.route (fst (make_scene props state prog self r i h)) =
     HeaderScene.route (new_scene props state prog self r i x) \<and>
   HeaderScene.progress (fst (make_scene props state prog self r i h)) =
     HeaderScene.progress (new_scene props state prog self r i x) \<and>
   descriptor (fst (make_scene props state prog self r i h)) =
     descriptor (new_scene props state prog self r i x)"
proof -
  let ?N = "new_scene props state prog self r i (next_ref h)"
  have "HeaderScene.route (fst (make_scene props state prog self r i h)) = HeaderScene.route ?N \<and>
   HeaderScene.progress (fst (make_scene props state prog self r i h)) = HeaderScene.progress ?N \<and>
   descriptor (fst (make_scene props state prog self r i h)) = descriptor ?N"
    unfolding make_scene_fst
    by (cases "nth_opt (State.scenes state) i") simp_all
  then show ?thesis
    using new_scene_ref [of props state prog self r i "next_ref h" x] by simp
qed

lemma make_scene_memo:
  assumes "nth_opt (State.scenes state) i = Some old"
    and "HeaderScene.route (new_scene props state prog self r i x) = HeaderScene.route old"
    and "HeaderScene.progress (new_scene props state prog self r i x) = HeaderScene.progress old"
    and "descriptor (new_scene props state prog self r i x) = descriptor old"
  shows "fst (make_scene props state prog self r i h) = old"
  using assms new_scene_ref [of props state prog self r i "next_ref h" x]
  unfolding make_scene_fst by simp

lemma map_index_nth:
  "map_index f xs i h = (ys, h') \<Longrightarrow>
     length ys = length xs \<and> (\<forall>j<length xs. \<exists>hj. ys ! j = fst (f (xs ! j) (i + j) hj))"
proof (induction xs arbitrary: i h ys h')
  case Nil
  then show ?case by simp
next
  case (Cons x xs)
  obtain y h1 where y: "f x i h = (y, h1)" by (cases "f x i h") blast
  obtain zs h2 where zs: "map_index f xs (Suc i) h1 = (zs, h2)"
    by (cases "map_index f xs (Suc i) h1") blast
  from Cons.prems y zs have eq: "ys = y # zs" by simp
  from Cons.IH [OF zs] have
    len: "length zs = length xs" and
    nth: "\<forall>j<length xs. \<exists>hj. zs ! j = fst (f (xs ! j) (Suc i + j) hj)"
    by blast+
  show ?case
  proof (intro conjI allI impI)
    show "length ys = length (x # xs)" using len eq by simp
  next
    fix j assume j: "j < length (x # xs)"
    show "\<exists>hj. ys ! j = fst (f ((x # xs) ! j) (i + j) hj)"
    proof (cases j)
      case 0
      with y eq show ?thesis by (metis add_0_right fst_conv nth_Cons_0)
    next
      case (Suc m)
      with j nth obtain hj where "zs ! m = fst (f (xs ! m) (Suc i + m) hj)" by auto
      with Suc eq show ?thesis by auto
    qed
  qed
qed

lemma map_index_make_scene_heap:
  "map_index (make_scene props state prog self) xs i h = (ys, h') \<Longrightarrow>
     animated h' = animated h \<and> next_ref h \<le> next_ref h'"
proof (induction xs arbitrary: i h ys h')
  case Nil
  then show ?case by simp
next
  case (Cons x xs)
  obtain y h1 where y: "make_scene props state prog self x i h = (y, h1)"
    by (cases "make_scene props state prog self x i h") blast
  obtain zs h2 where zs: "map_index (make_scene props state prog self) xs (Suc i) h1 = (zs, h2)"
    by (cases "map_index (make_scene props state prog self) xs (Suc i) h1") blast
  from Cons.prems y zs have eq: "h' = h2" by simp
  from y make_scene_heap [of props state prog self x i h]
  have h1: "h1 = h\<lparr>next_ref := Suc (next_ref h)\<rparr>" by simp
  from Cons.IH [OF zs] eq h1 show ?case by simp
qed

subsection \<open>The derived state\<close>

lemma derived_state:
  assumes "getDerivedStateFromProps env props state h = (Some state', h')"
  shows "\<exists>h1.
           fold (progress_reducer props state) (items (Props.routes props)) (Map.empty, h) =
             (State.progress state', h1) \<and>
           map_index (make_scene props state (State.progress state') (items (Props.routes props)))
             (items (Props.routes props)) 0 h1 = (State.scenes state', h') \<and>
           State.routes state' = Props.routes props \<and>
           State.descriptors state' = Props.descriptors props \<and>
           State.layout state' = State.layout state"
proof -
  obtain prog h1 where
    f: "fold (progress_reducer props state) (items (Props.routes props)) (Map.empty, h) =
          (prog, h1)"
    by (cases "fold (progress_reducer props state) (items (Props.routes props)) (Map.empty, h)")
      blast
  obtain scs h2 where
    m: "map_index (make_scene props state prog (items (Props.routes props)))
          (items (Props.routes props)) 0 h1 = (scs, h2)"
    by (cases "map_index (make_scene props state prog (items (Props.routes props)))
          (items (Props.routes props)) 0 h1") blast
  from assms have ne: "\<not> (Props.routes props = State.routes state \<and>
         Props.descriptors props = State.descriptors state)"
    by (auto simp: getDerivedStateFromProps_def)
  from assms ne f m have
    "state' = \<lparr>State.routes = Props.routes props,
                State.descriptors = Props.descriptors props,
                State.scenes = scs,
                State.progress = prog,
                State.layout = State.layout state,
                floatingHeaderHeights =
                  getFloatingHeaderHeights env (items (Props.routes props)) (insets props)
                    (State.layout state) (floatingHeaderHeights state)\<rparr>" and "h' = h2"
    by (simp_all add: getDerivedStateFromProps_def)
  with f m show ?thesis by simp
qed

lemma derived_progress:
  assumes "getDerivedStateFromProps env props state h = (Some state', h')"
  shows "next_ref h \<le> next_ref h' \<and>
         (\<forall>a<next_ref h. animated h' a = animated h a) \<and>
         (\<forall>k. k \<notin> key ` set (items (Props.routes props)) \<longrightarrow> State.progress state' k = None) \<and>
         (\<forall>k\<in>key ` set (items (Props.routes props)).
            case State.progress state k of
              Some v \<Rightarrow> State.progress state' k = Some v
            | None \<Rightarrow>
                if k \<in> set Object_prototype then State.progress state' k = None
                else (\<exists>a. State.progress state' k = Some a \<and> next_ref h \<le> a \<and>
                        a < next_ref h' \<and> animated h' a = Some (seed props k)))"
proof -
  from derived_state [OF assms] obtain h1 where
    f: "fold (progress_reducer props state) (items (Props.routes props)) (Map.empty, h) =
          (State.progress state', h1)" and
    m: "map_index (make_scene props state (State.progress state') (items (Props.routes props)))
          (items (Props.routes props)) 0 h1 = (State.scenes state', h')"
    by blast
  from map_index_make_scene_heap [OF m] have
    h: "animated h' = animated h1" "next_ref h1 \<le> next_ref h'"
    by simp_all
  from progress_fold [OF f] have
    1: "next_ref h \<le> next_ref h1" and
    2: "\<forall>a<next_ref h. animated h1 a = animated h a" and
    3: "\<forall>k. k \<notin> key ` set (items (Props.routes props)) \<longrightarrow> State.progress state' k = None" and
    4: "\<forall>k\<in>key ` set (items (Props.routes props)).
            case State.progress state k of
              Some v \<Rightarrow> State.progress state' k = Some v
            | None \<Rightarrow>
                if k \<in> set Object_prototype then State.progress state' k = None
                else (\<exists>a. State.progress state' k = Some a \<and> next_ref h \<le> a \<and>
                        a < next_ref h1 \<and> animated h1 a = Some (seed props k))"
    by simp_all
  have "\<forall>k\<in>key ` set (items (Props.routes props)).
            case State.progress state k of
              Some v \<Rightarrow> State.progress state' k = Some v
            | None \<Rightarrow>
                if k \<in> set Object_prototype then State.progress state' k = None
                else (\<exists>a. State.progress state' k = Some a \<and> next_ref h \<le> a \<and>
                        a < next_ref h' \<and> animated h' a = Some (seed props k))"
  proof
    fix k assume k: "k \<in> key ` set (items (Props.routes props))"
    show "case State.progress state k of
              Some v \<Rightarrow> State.progress state' k = Some v
            | None \<Rightarrow>
                if k \<in> set Object_prototype then State.progress state' k = None
                else (\<exists>a. State.progress state' k = Some a \<and> next_ref h \<le> a \<and>
                        a < next_ref h' \<and> animated h' a = Some (seed props k))"
    proof (cases "State.progress state k")
      case None
      show ?thesis
      proof (cases "k \<in> set Object_prototype")
        case True
        with 4 k None show ?thesis by force
      next
        case False
        with 4 k None obtain a where "State.progress state' k = Some a" "next_ref h \<le> a"
          "a < next_ref h1" "animated h1 a = Some (seed props k)"
          by force
        with h None False show ?thesis by auto
      qed
    next
      case (Some v)
      with 4 k show ?thesis by force
    qed
  qed
  with 1 2 3 h show ?thesis by auto
qed

text \<open>A derivation never gives the progress map a prototype of its own.\<close>

lemma derived_progress_prototype_kept:
  assumes "getDerivedStateFromProps env props state h = (Some state', h')"
    and "State.progress state ''__proto__'' = None"
  shows "State.progress state' ''__proto__'' = None"
proof (cases "''__proto__'' \<in> key ` set (items (Props.routes props))")
  case True
  with derived_progress [OF assms(1)] assms(2) proto_member show ?thesis by force
next
  case False
  with derived_progress [OF assms(1)] show ?thesis by blast
qed

lemma derive_step_progress:
  assumes "derive_step env props (state, h) = (state', h')"
    and "State.progress state k = Some a"
    and "k \<in> key ` set (items (Props.routes props))"
  shows "State.progress state' k = Some a \<and> next_ref h \<le> next_ref h' \<and>
         (\<forall>b<next_ref h. animated h' b = animated h b)"
proof (cases "fst (getDerivedStateFromProps env props state h)")
  case None
  then have "getDerivedStateFromProps env props state h = (None, h)"
    by (auto simp: getDerivedStateFromProps_def Let_def split: if_splits prod.splits)
  with assms show ?thesis by (simp add: derive_step_def)
next
  case (Some s)
  then obtain h2 where g: "getDerivedStateFromProps env props state h = (Some s, h2)"
    by (cases "getDerivedStateFromProps env props state h") auto
  with assms(1) have e: "state' = s" "h' = h2" by (simp_all add: derive_step_def)
  from derived_progress [OF g] assms(2,3) show ?thesis
    unfolding e by force
qed

lemma derived_scenes:
  assumes "getDerivedStateFromProps env props state h = (Some state', h')"
  shows "length (State.scenes state') = length (items (Props.routes props)) \<and>
         (\<forall>i<length (items (Props.routes props)).
            \<exists>hj. State.scenes state' ! i =
                   fst (make_scene props state (State.progress state') (items (Props.routes props))
                          (items (Props.routes props) ! i) i hj))"
proof -
  from derived_state [OF assms] obtain h1 where
    m: "map_index (make_scene props state (State.progress state') (items (Props.routes props)))
          (items (Props.routes props)) 0 h1 = (State.scenes state', h')"
    by blast
  from map_index_nth [OF m] show ?thesis by simp
qed

lemma derived_scene_fields:
  assumes "getDerivedStateFromProps env props state h = (Some state', h')"
    and "i < length (items (Props.routes props))"
  shows "HeaderScene.route (State.scenes state' ! i) = items (Props.routes props) ! i"
    and "HeaderScene.progress (State.scenes state' ! i) =
           HeaderScene.progress
             (new_scene props state (State.progress state') (items (Props.routes props))
                (items (Props.routes props) ! i) i x)"
    and "descriptor (State.scenes state' ! i) =
           or_object (descriptor_at (Props.descriptors props) (key (items (Props.routes props) ! i)))
             (or_object (descriptor_at (State.descriptors state) (key (items (Props.routes props) ! i)))
                (case nth_opt (State.scenes state) i of
                   Some old \<Rightarrow> descriptor old
                 | None \<Rightarrow> OwnProperty FALLBACK_DESCRIPTOR))"
proof -
  from derived_scenes [OF assms(1)] assms(2) obtain hj where
    e: "State.scenes state' ! i =
          fst (make_scene props state (State.progress state') (items (Props.routes props))
                 (items (Props.routes props) ! i) i hj)"
    by blast
  note f = make_scene_fields [of props state "State.progress state'" "items (Props.routes props)"
      "items (Props.routes props) ! i" i hj x]
  from f show "HeaderScene.route (State.scenes state' ! i) = items (Props.routes props) ! i"
    unfolding e by (simp only: new_scene_fields)
  from f show "HeaderScene.progress (State.scenes state' ! i) =
           HeaderScene.progress
             (new_scene props state (State.progress state') (items (Props.routes props))
                (items (Props.routes props) ! i) i x)"
    unfolding e by blast
  from f show "descriptor (State.scenes state' ! i) =
           or_object (descriptor_at (Props.descriptors props) (key (items (Props.routes props) ! i)))
             (or_object (descriptor_at (State.descriptors state) (key (items (Props.routes props) ! i)))
                (case nth_opt (State.scenes state) i of
                   Some old \<Rightarrow> descriptor old
                 | None \<Rightarrow> OwnProperty FALLBACK_DESCRIPTOR))"
    unfolding e by (simp only: new_scene_fields)
qed

lemma derived_scene_memo:
  assumes "getDerivedStateFromProps env props state h = (Some state', h')"
    and "i < length (items (Props.routes props))"
    and "nth_opt (State.scenes state) i = Some old"
    and "HeaderScene.route
           (new_scene props state (State.progress state') (items (Props.routes props))
              (items (Props.routes props) ! i) i r) = HeaderScene.route old"
    and "HeaderScene.progress
           (new_scene props state (State.progress state') (items (Props.routes props))
              (items (Props.routes props) ! i) i r) = HeaderScene.progress old"
    and "descriptor
           (new_scene props state (State.progress state') (items (Props.routes props))
              (items (Props.routes props) ! i) i r) = descriptor old"
  shows "State.scenes state' ! i = old"
proof -
  from derived_scenes [OF assms(1)] assms(2) obtain hj where
    e: "State.scenes state' ! i =
          fst (make_scene props state (State.progress state') (items (Props.routes props))
                 (items (Props.routes props) ! i) i hj)"
    by blast
  from make_scene_memo [OF assms(3,4,5,6)] show ?thesis
    unfolding e .
qed

lemma rederive_progress:
  assumes "getDerivedStateFromProps env props state h = (Some state1, h1)"
    and "getDerivedStateFromProps env props' state1 h1 = (Some state2, h2)"
    and "items (Props.routes props') = items (Props.routes props)"
  shows "State.progress state2 = State.progress state1"
proof
  fix k
  note a = derived_progress [OF assms(1)]
  note b = derived_progress [OF assms(2)]
  show "State.progress state2 k = State.progress state1 k"
  proof (cases "k \<in> key ` set (items (Props.routes props))")
    case False
    with a b assms(3) show ?thesis by simp
  next
    case True
    show ?thesis
    proof (cases "State.progress state1 k")
      case (Some v)
      with b True assms(3) show ?thesis by force
    next
      case None
      have "k \<in> set Object_prototype"
      proof (rule ccontr)
        assume "k \<notin> set Object_prototype"
        with a True have "State.progress state1 k \<noteq> None"
          by (cases "State.progress state k") force+
        with None show False by simp
      qed
      with b True assms(3) None show ?thesis by force
    qed
  qed
qed

lemma rederive_scenes:
  assumes "getDerivedStateFromProps env props state h = (Some state1, h1)"
    and "getDerivedStateFromProps env props' state1 h1 = (Some state2, h2)"
    and "items (Props.routes props') = items (Props.routes props)"
    and "\<forall>k\<in>key ` set (items (Props.routes props)).
           lookup (Props.descriptors props') k = lookup (Props.descriptors props) k"
    and "i < length (items (Props.routes props))"
  shows "State.scenes state2 ! i = State.scenes state1 ! i"
proof -
  let ?rs = "items (Props.routes props)"
  let ?k = "key (?rs ! i)"
  from derived_scenes [OF assms(1)] assms(5) have
    old: "nth_opt (State.scenes state1) i = Some (State.scenes state1 ! i)"
    by (simp add: nth_opt_def)
  from rederive_progress [OF assms(1,2,3)] have p: "State.progress state2 = State.progress state1" .
  from derived_state [OF assms(1)] have d: "State.descriptors state1 = Props.descriptors props"
    by blast
  from assms(4,5) have
    l: "descriptor_at (Props.descriptors props') ?k = descriptor_at (Props.descriptors props) ?k"
    by (simp add: descriptor_at_def read_property_def)
  note f = derived_scene_fields [OF assms(1,5)]
  have i': "i < length (items (Props.routes props'))" using assms(3,5) by simp
  have 1: "HeaderScene.route
           (new_scene props' state1 (State.progress state2) (items (Props.routes props'))
              (items (Props.routes props') ! i) i 0) = HeaderScene.route (State.scenes state1 ! i)"
    unfolding f(1) assms(3) by (simp only: new_scene_fields)
  have 2: "HeaderScene.progress
           (new_scene props' state1 (State.progress state2) (items (Props.routes props'))
              (items (Props.routes props') ! i) i 0) = HeaderScene.progress (State.scenes state1 ! i)"
    unfolding f(2) [of 0] assms(3) p by (simp only: new_scene_fields)
  have 3: "descriptor
           (new_scene props' state1 (State.progress state2) (items (Props.routes props'))
              (items (Props.routes props') ! i) i 0) = descriptor (State.scenes state1 ! i)"
    unfolding assms(3) new_scene_fields old d l
    by (cases "descriptor_at (Props.descriptors props) ?k") (simp_all add: f(3) or_object_def)
  from derived_scene_memo [OF assms(2) i' old 1 2 3] show ?thesis .
qed

lemma derive_step_Some:
  assumes "\<not> (Props.routes props = State.routes state \<and>
              Props.descriptors props = State.descriptors state)"
  shows "getDerivedStateFromProps env props state h =
           (Some (fst (derive_step env props (state, h))), snd (derive_step env props (state, h)))"
proof -
  obtain prog h1 where
    f: "fold (progress_reducer props state) (items (Props.routes props)) (Map.empty, h) =
          (prog, h1)"
    by (cases "fold (progress_reducer props state) (items (Props.routes props)) (Map.empty, h)")
      blast
  obtain scs h2 where
    m: "map_index (make_scene props state prog (items (Props.routes props)))
          (items (Props.routes props)) 0 h1 = (scs, h2)"
    by (cases "map_index (make_scene props state prog (items (Props.routes props)))
          (items (Props.routes props)) 0 h1") blast
  from assms f m have "\<exists>s. getDerivedStateFromProps env props state h = (Some s, h2)"
    by (simp add: getDerivedStateFromProps_def)
  then show ?thesis by (auto simp: derive_step_def)
qed

subsection \<open>The example stack\<close>

lemmas example_defs = route_A_def route_B_def route_C_def route_D_def route_K_def example_env_def
  descriptor_B_def descriptor_C_def example_props_def example_heap_def initial_state_def
  example_state_def example_state_heap_def FALLBACK_DESCRIPTOR_def empty_options_def

lemmas derive_defs = getDerivedStateFromProps_def progress_reducer_def make_scene_def new_scene_def Let_def
  new_Animated_Value_def new_object_def nth_opt_def or_object_def lookup_def descriptor_at_def read_property_def assign_number_def Object_prototype_def derive_step_def

lemma example_derived:
  "getDerivedStateFromProps (example_env os) (example_props rs)
     (initial_state (example_env os) (example_props rs) 1) example_heap =
     (Some (example_state os rs), example_state_heap os rs)"
  unfolding example_state_def example_state_heap_def
  by (rule derive_step_Some) (simp add: example_props_def initial_state_def)

lemma layout_change_default_heights:
  "(height e = height (State.layout state) \<and> width e = width (State.layout state) \<longrightarrow>
      handleLayout env props state e = None) \<and>
   (\<not> (height e = height (State.layout state) \<and> width e = width (State.layout state)) \<longrightarrow>
      (\<exists>state'. handleLayout env props state e = Some state' \<and>
         State.layout state' = \<lparr>width = width e, height = height e\<rparr> \<and>
         (\<forall>k. floatingHeaderHeights state' k =
            (if k \<in> key ` set (items (Props.routes props)) \<and> k \<notin> set Object_prototype
             then Some (getDefaultHeaderHeight env \<lparr>width = width e, height = height e\<rparr>
                          (insets props))
             else None)) \<and>
         State.routes state' = State.routes state \<and>
         State.descriptors state' = State.descriptors state \<and>
         State.scenes state' = State.scenes state \<and>
         State.progress state' = State.progress state))"
  using proto_member
  by (auto simp: handleLayout_def Let_def getFloatingHeaderHeights_lookup)

lemma derived_descriptors_defined:
  assumes "getDerivedStateFromProps env props state h = (Some state', h')"
    and "\<forall>r\<in>set (items (Props.routes props)). key r \<notin> set Object_prototype"
    and "\<forall>sc\<in>set (State.scenes state). \<forall>m. descriptor sc \<noteq> PrototypeMember m"
  shows "\<forall>sc\<in>set (State.scenes state'). \<forall>m. descriptor sc \<noteq> PrototypeMember m"
proof
  fix sc assume "sc \<in> set (State.scenes state')"
  then obtain i where i: "i < length (State.scenes state')" and sc: "sc = State.scenes state' ! i"
    by (auto simp: in_set_conv_nth)
  from derived_scenes [OF assms(1)] i have i': "i < length (items (Props.routes props))"
    by simp
  let ?k = "key (items (Props.routes props) ! i)"
  from assms(2) i' have k: "?k \<notin> set Object_prototype" by simp
  have old: "\<forall>m. (case nth_opt (State.scenes state) i of
                     Some old \<Rightarrow> descriptor old
                   | None \<Rightarrow> OwnProperty FALLBACK_DESCRIPTOR) \<noteq> PrototypeMember m"
    using assms(3) by (simp add: nth_opt_def)
  show "\<forall>m. descriptor sc \<noteq> PrototypeMember m"
    unfolding sc derived_scene_fields(3) [OF assms(1) i']
    using k old
    by (cases "lookup (Props.descriptors props) ?k"; cases "lookup (State.descriptors state) ?k")
      (simp_all add: or_object_def descriptor_at_def read_property_def)
qed

section \<open>Progress values\<close>

text \<open>
  Claim C1. A route key that has a progress value in the previous state and is in the
  new route list keeps that very progress value in the derived state. Over any sequence
  of derivations whose route lists all hold the key, the progress map holds the same
  reference for the key at the end, and the derivations do not write to the value.
\<close>

theorem progress_continuity:
  assumes "State.progress state k = Some a"
    and "\<forall>props\<in>set propss. k \<in> key ` set (items (Props.routes props))"
  shows "State.progress (fst (derive_all env propss (state, h))) k = Some a \<and>
         (a < next_ref h \<longrightarrow> animated (snd (derive_all env propss (state, h))) a = animated h a)"
proof -
  have "State.progress (fst (derive_all env propss (state, h))) k = Some a \<and>
        next_ref h \<le> next_ref (snd (derive_all env propss (state, h))) \<and>
        (\<forall>b<next_ref h. animated (snd (derive_all env propss (state, h))) b = animated h b)"
    using assms
  proof (induction propss arbitrary: state h)
    case Nil
    then show ?case by (simp add: derive_all_def)
  next
    case (Cons props propss)
    obtain s1 h1 where d: "derive_step env props (state, h) = (s1, h1)"
      by (cases "derive_step env props (state, h)") blast
    from Cons.prems have k: "k \<in> key ` set (items (Props.routes props))" by simp
    from derive_step_progress [OF d Cons.prems(1) k] have
      p: "State.progress s1 k = Some a" and m: "next_ref h \<le> next_ref h1" and
      u: "\<forall>b<next_ref h. animated h1 b = animated h b"
      by blast+
    from Cons.prems have "\<forall>props\<in>set propss. k \<in> key ` set (items (Props.routes props))"
      by simp
    from Cons.IH [OF p this, of h1] have
      "State.progress (fst (derive_all env propss (s1, h1))) k = Some a"
      "next_ref h1 \<le> next_ref (snd (derive_all env propss (s1, h1)))"
      "\<forall>b<next_ref h1. animated (snd (derive_all env propss (s1, h1))) b = animated h1 b"
      by blast+
    moreover have "derive_all env (props # propss) (state, h) = derive_all env propss (s1, h1)"
      using d by (simp add: derive_all_def)
    ultimately show ?case using m u by auto
  qed
  then show ?thesis by blast
qed

theorem progress_continuity_witness:
  "State.progress (example_state ios [route_A]) ''A'' = Some 100 \<and>
   100 < next_ref (example_state_heap ios [route_A]) \<and>
   animated (example_state_heap ios [route_A]) 100 = Some 1 \<and>
   State.progress
     (fst (derive_all (example_env ios)
             [example_props [route_A, route_B], example_props [route_B, route_A, route_C]]
             (example_state ios [route_A], example_state_heap ios [route_A]))) ''A'' = Some 100 \<and>
   animated
     (snd (derive_all (example_env ios)
             [example_props [route_A, route_B], example_props [route_B, route_A, route_C]]
             (example_state ios [route_A], example_state_heap ios [route_A]))) 100 = Some 1"
proof -
  let ?S = "example_state ios [route_A]"
  let ?H = "example_state_heap ios [route_A]"
  let ?ps = "[example_props [route_A, route_B], example_props [route_B, route_A, route_C]]"
  have p: "State.progress ?S ''A'' = Some 100" by (simp add: example_defs derive_defs)
  have l: "100 < next_ref ?H" by (simp add: example_defs derive_defs)
  have v: "animated ?H 100 = Some 1" by (simp add: example_defs derive_defs)
  have k: "\<forall>props\<in>set ?ps. ''A'' \<in> key ` set (items (Props.routes props))"
    by (simp add: example_props_def route_A_def)
  from progress_continuity [OF p k, of "example_env ios" ?H] p l v show ?thesis by simp
qed

text \<open>
  Claim C2, as amended. For a route key of the new route list that has no progress value
  in the previous state and names no member of \<open>Object.prototype\<close>, the derivation
  creates a fresh value. It holds 0 when the key is in the opening keys, the new
  descriptor map has a descriptor for the key and the \<open>animationEnabled\<close> option of that
  descriptor is not \<open>false\<close>; it holds 1 in every other case: the key is not opening, it
  has no descriptor in the new map, or \<open>animationEnabled\<close> is \<open>false\<close>.
\<close>

theorem new_progress_seed:
  assumes "getDerivedStateFromProps env props state h = (Some state', h')"
    and "k \<in> key ` set (items (Props.routes props))"
    and "State.progress state k = None"
    and "k \<notin> set Object_prototype"
  shows "\<exists>a. State.progress state' k = Some a \<and> next_ref h \<le> a \<and>
           animated h' a =
             Some (if k \<in> set (openingRoutesKeys props) \<and>
                      (\<exists>d. lookup (Props.descriptors props) k = Some d \<and>
                           animationEnabled (options d) \<noteq> Some False)
                   then 0 else 1)"
proof -
  from derived_progress [OF assms(1)] assms(2,3,4) obtain a where
    "State.progress state' k = Some a" "next_ref h \<le> a" "animated h' a = Some (seed props k)"
    by force
  moreover have "seed props k =
     (if k \<in> set (openingRoutesKeys props) \<and>
                      (\<exists>d. lookup (Props.descriptors props) k = Some d \<and>
                           animationEnabled (options d) \<noteq> Some False)
                   then 0 else 1)"
    using assms(4)
    by (cases "lookup (Props.descriptors props) k")
      (simp_all add: seed_def descriptor_at_def read_property_def)
  ultimately show ?thesis by simp
qed

theorem new_progress_seed_witness:
  "State.progress (initial_state (example_env ios) (example_props [route_A, route_B]) 1) ''A'' = None \<and>
   State.progress (initial_state (example_env ios) (example_props [route_A, route_B]) 1) ''B'' = None \<and>
   ''A'' \<notin> set (openingRoutesKeys (example_props [route_A, route_B])) \<and>
   ''B'' \<in> set (openingRoutesKeys (example_props [route_A, route_B])) \<and>
   ''A'' \<notin> set Object_prototype \<and> ''B'' \<notin> set Object_prototype \<and>
   lookup (Props.descriptors (example_props [route_A, route_B])) ''B'' = Some descriptor_B \<and>
   animationEnabled (options descriptor_B) = None \<and>
   (\<exists>a. State.progress (example_state ios [route_A, route_B]) ''A'' = Some a \<and>
        animated (example_state_heap ios [route_A, route_B]) a = Some 1) \<and>
   (\<exists>b. State.progress (example_state ios [route_A, route_B]) ''B'' = Some b \<and>
        animated (example_state_heap ios [route_A, route_B]) b = Some 0)"
proof -
  let ?P = "example_props [route_A, route_B]"
  let ?S = "initial_state (example_env ios) ?P 1"
  have n: "State.progress ?S ''A'' = None" "State.progress ?S ''B'' = None"
    by (simp_all add: initial_state_def)
  have k: "''A'' \<in> key ` set (items (Props.routes ?P))" "''B'' \<in> key ` set (items (Props.routes ?P))"
    by (simp_all add: example_props_def route_A_def route_B_def)
  have np: "''A'' \<notin> set Object_prototype" "''B'' \<notin> set Object_prototype"
    by (simp_all add: Object_prototype_def)
  have o: "''A'' \<notin> set (openingRoutesKeys ?P)" "''B'' \<in> set (openingRoutesKeys ?P)"
    by (simp_all add: example_props_def route_A_def route_B_def)
  have d: "lookup (Props.descriptors ?P) ''B'' = Some descriptor_B"
    by (simp add: example_props_def lookup_def)
  have e: "animationEnabled (options descriptor_B) = None"
    by (simp add: descriptor_B_def empty_options_def)
  from new_progress_seed [OF example_derived k(1) n(1) np(1)] o(1) have
    a: "\<exists>a. State.progress (example_state ios [route_A, route_B]) ''A'' = Some a \<and>
        animated (example_state_heap ios [route_A, route_B]) a = Some 1"
    by auto
  from new_progress_seed [OF example_derived k(2) n(2) np(2)] o(2) d e have
    b: "\<exists>b. State.progress (example_state ios [route_A, route_B]) ''B'' = Some b \<and>
        animated (example_state_heap ios [route_A, route_B]) b = Some 0"
    by auto
  from n o np d e a b show ?thesis by blast
qed

text \<open>
  Claim C2 as stated fails for an opening key without a descriptor: no
  \<open>animationEnabled\<close> option is \<open>false\<close>, and the new value holds 1, not 0. It also
  fails for an opening route keyed \<open>constructor\<close>: the progress map of the previous
  state has no value for it, the read finds the member of \<open>Object.prototype\<close>, and the
  derivation creates no value at all.
\<close>

theorem new_progress_seed_no_descriptor_counterexample:
  "''A'' \<in> set (openingRoutesKeys (example_props [route_A])) \<and>
   lookup (Props.descriptors (example_props [route_A])) ''A'' = None \<and>
   State.progress (initial_state (example_env ios) (example_props [route_A]) 1) ''A'' = None \<and>
   State.progress (example_state ios [route_A]) ''A'' = Some 100 \<and>
   animated (example_state_heap ios [route_A]) 100 = Some 1 \<and>
   key route_K \<in> set (openingRoutesKeys (example_props [route_K])) \<and>
   State.progress (initial_state (example_env ios) (example_props [route_K]) 1) (key route_K) =
     None \<and>
   State.progress (example_state ios [route_K]) (key route_K) = None \<and>
   read_property (State.progress (example_state ios [route_K])) (key route_K) =
     PrototypeMember ''constructor'' \<and>
   animated (example_state_heap ios [route_K]) 100 = None"
  by (simp add: example_defs derive_defs)

section \<open>Scenes\<close>

text \<open>
  Claim C4. When the scene computed for index \<open>i\<close> has the route, the progress triple
  and the descriptor of the scene that the previous state holds at \<open>i\<close>, the derived
  state holds that previous scene itself at \<open>i\<close>. Hence deriving again from props with
  the same routes and the same descriptors for their keys gives the same scenes at every
  index, whether the derivation returns a new state or \<open>null\<close>.
\<close>

theorem scene_memoization:
  assumes "getDerivedStateFromProps env props state h = (Some state1, h1)"
  shows
    "(\<forall>i old r.
        i < length (items (Props.routes props)) \<and>
        nth_opt (State.scenes state) i = Some old \<and>
        HeaderScene.route
          (new_scene props state (State.progress state1) (items (Props.routes props))
             (items (Props.routes props) ! i) i r) = HeaderScene.route old \<and>
        HeaderScene.progress
          (new_scene props state (State.progress state1) (items (Props.routes props))
             (items (Props.routes props) ! i) i r) = HeaderScene.progress old \<and>
        descriptor
          (new_scene props state (State.progress state1) (items (Props.routes props))
             (items (Props.routes props) ! i) i r) = descriptor old \<longrightarrow>
        State.scenes state1 ! i = old) \<and>
     (\<forall>props'.
        items (Props.routes props') = items (Props.routes props) \<and>
        (\<forall>k\<in>key ` set (items (Props.routes props)).
           lookup (Props.descriptors props') k = lookup (Props.descriptors props) k) \<longrightarrow>
        State.scenes (fst (derive_step env props' (state1, h1))) = State.scenes state1)"
proof (intro conjI allI impI)
  fix i old r
  assume a: "i < length (items (Props.routes props)) \<and>
        nth_opt (State.scenes state) i = Some old \<and>
        HeaderScene.route
          (new_scene props state (State.progress state1) (items (Props.routes props))
             (items (Props.routes props) ! i) i r) = HeaderScene.route old \<and>
        HeaderScene.progress
          (new_scene props state (State.progress state1) (items (Props.routes props))
             (items (Props.routes props) ! i) i r) = HeaderScene.progress old \<and>
        descriptor
          (new_scene props state (State.progress state1) (items (Props.routes props))
             (items (Props.routes props) ! i) i r) = descriptor old"
  then show "State.scenes state1 ! i = old"
    using derived_scene_memo [OF assms, of i old r] by blast
next
  fix props' :: Props
  assume b: "items (Props.routes props') = items (Props.routes props) \<and>
        (\<forall>k\<in>key ` set (items (Props.routes props)).
           lookup (Props.descriptors props') k = lookup (Props.descriptors props) k)"
  show "State.scenes (fst (derive_step env props' (state1, h1))) = State.scenes state1"
  proof (cases "getDerivedStateFromProps env props' state1 h1")
    case (Pair res h2)
    show ?thesis
    proof (cases res)
      case None
      with Pair show ?thesis by (simp add: derive_step_def)
    next
      case (Some state2)
      with Pair have g: "getDerivedStateFromProps env props' state1 h1 = (Some state2, h2)"
        by simp
      then have e: "fst (derive_step env props' (state1, h1)) = state2"
        by (simp add: derive_step_def)
      from derived_scenes [OF assms] have l1:
        "length (State.scenes state1) = length (items (Props.routes props))" by blast
      from derived_scenes [OF g] b have l2:
        "length (State.scenes state2) = length (items (Props.routes props))" by simp
      have "State.scenes state2 = State.scenes state1"
      proof (rule nth_equalityI)
        show "length (State.scenes state2) = length (State.scenes state1)" using l1 l2 by simp
      next
        fix i assume "i < length (State.scenes state2)"
        with l2 have i: "i < length (items (Props.routes props))" by simp
        from b have b1: "items (Props.routes props') = items (Props.routes props)"
          and b2: "\<forall>k\<in>key ` set (items (Props.routes props)).
           lookup (Props.descriptors props') k = lookup (Props.descriptors props) k"
          by blast+
        from rederive_scenes [OF assms g b1 b2 i]
        show "State.scenes state2 ! i = State.scenes state1 ! i" .
      qed
      with e show ?thesis by simp
    qed
  qed
qed

theorem scene_memoization_witness:
  "State.scenes (fst example_state_again) ! 0 = State.scenes (example_state ios [route_A, route_B]) ! 0 \<and>
   State.scenes
     (fst (derive_step (example_env ios) (example_props_again [route_A, route_B] 99)
             example_state_again)) =
     State.scenes (fst example_state_again)"
proof -
  let ?E = "example_env ios"
  let ?P = "example_props_again [route_A, route_B] 98"
  let ?P' = "example_props_again [route_A, route_B] 99"
  let ?S = "example_state ios [route_A, route_B]"
  let ?H = "example_state_heap ios [route_A, route_B]"
  from derived_state [OF example_derived [of ios "[route_A, route_B]"]] have
    "State.routes ?S = Props.routes (example_props [route_A, route_B])"
    by blast
  then have ne: "\<not> (Props.routes ?P = State.routes ?S \<and>
              Props.descriptors ?P = State.descriptors ?S)"
    by (simp add: example_props_again_def example_props_def)
  from derive_step_Some [OF ne, of ?E ?H] have
    g: "getDerivedStateFromProps ?E ?P ?S ?H = (Some (fst example_state_again), snd example_state_again)"
    by (simp add: example_state_again_def)
  note T = scene_memoization [OF g]
  have i: "0 < length (items (Props.routes ?P))"
    by (simp add: example_props_again_def)
  have old: "nth_opt (State.scenes ?S) 0 = Some (State.scenes ?S ! 0)" by code_simp
  have r: "HeaderScene.route
          (new_scene ?P ?S (State.progress (fst example_state_again)) (items (Props.routes ?P))
             (items (Props.routes ?P) ! 0) 0 0) = HeaderScene.route (State.scenes ?S ! 0)"
    by code_simp
  have p: "HeaderScene.progress
          (new_scene ?P ?S (State.progress (fst example_state_again)) (items (Props.routes ?P))
             (items (Props.routes ?P) ! 0) 0 0) = HeaderScene.progress (State.scenes ?S ! 0)"
    by code_simp
  have d: "descriptor
          (new_scene ?P ?S (State.progress (fst example_state_again)) (items (Props.routes ?P))
             (items (Props.routes ?P) ! 0) 0 0) = descriptor (State.scenes ?S ! 0)"
    by code_simp
  from T i old r p d have first:
    "State.scenes (fst example_state_again) ! 0 = State.scenes ?S ! 0"
    by blast
  have same: "items (Props.routes ?P') = items (Props.routes ?P) \<and>
        (\<forall>k\<in>key ` set (items (Props.routes ?P)).
           lookup (Props.descriptors ?P') k = lookup (Props.descriptors ?P) k)"
    by (simp add: example_props_again_def)
  from T same have
    "State.scenes (fst (derive_step ?E ?P' (fst example_state_again, snd example_state_again))) =
       State.scenes (fst example_state_again)"
    by blast
  with first show ?thesis by simp
qed

text \<open>
  Claim C8, as amended. For a route whose key names no member of \<open>Object.prototype\<close>,
  the descriptor of the scene at index \<open>i\<close> is the entry of the new descriptor map for
  its key if there is one, else the entry of the previous state's descriptor map, else
  the descriptor of the scene that the previous state holds at index \<open>i\<close> if there is
  one, else the shared placeholder with empty options. Rendering the derived state
  returns without an exception, whatever descriptors are absent, whenever the navigation
  state has a route at its index, no route key (nor, with a floating header, the key of
  the focused route) names a member of \<open>Object.prototype\<close>, and no scene of the
  previous state holds such a member as its descriptor. A scene whose key is in neither
  map and whose index holds no previous scene has the placeholder: its gesture direction
  is the default of the mode and its other gesture options are undefined, and when it is
  the last scene its transition spec and both interpolators are the defaults of the mode.
\<close>

theorem descriptor_resolution:
  assumes "getDerivedStateFromProps env props state h = (Some state', h')"
    and "i < length (items (Props.routes props))"
    and "key (items (Props.routes props) ! i) \<notin> set Object_prototype"
  shows
    "length (State.scenes state') = length (items (Props.routes props)) \<and>
     descriptor (State.scenes state' ! i) =
       (case lookup (Props.descriptors props) (key (items (Props.routes props) ! i)) of
          Some d \<Rightarrow> OwnProperty d
        | None \<Rightarrow>
            (case lookup (State.descriptors state) (key (items (Props.routes props) ! i)) of
               Some d \<Rightarrow> OwnProperty d
             | None \<Rightarrow>
                 (if i < length (State.scenes state) then descriptor (State.scenes state ! i)
                  else OwnProperty FALLBACK_DESCRIPTOR))) \<and>
     (state_index (navigation props) < length (state_routes (navigation props)) \<and>
      (\<forall>r\<in>set (items (Props.routes props)). key r \<notin> set Object_prototype) \<and>
      (\<forall>sc\<in>set (State.scenes state). \<forall>m. descriptor sc \<noteq> PrototypeMember m) \<and>
      (Props.headerMode props = Float \<longrightarrow>
         key (state_routes (navigation props) ! state_index (navigation props)) \<notin>
           set Object_prototype) \<longrightarrow>
        (\<exists>out. render env props state' = Inr out \<and>
           (lookup (Props.descriptors props) (key (items (Props.routes props) ! i)) = None \<and>
            lookup (State.descriptors state) (key (items (Props.routes props) ! i)) = None \<and>
            length (State.scenes state) \<le> i \<longrightarrow>
              descriptor (State.scenes state' ! i) = OwnProperty FALLBACK_DESCRIPTOR \<and>
              StackItem.scene (children (screens out ! i)) = State.scenes state' ! i \<and>
              StackItem.gestureDirection (children (screens out ! i)) =
                TransitionPreset.gestureDirection (defaultTransitionPreset env props) \<and>
              StackItem.gestureResponseDistance (children (screens out ! i)) = None \<and>
              StackItem.gestureVelocityImpact (children (screens out ! i)) = None \<and>
              (Suc i = length (items (Props.routes props)) \<longrightarrow>
                 StackItem.transitionSpec (children (screens out ! i)) =
                   TransitionPreset.transitionSpec (defaultTransitionPreset env props) \<and>
                 StackItem.cardStyleInterpolator (children (screens out ! i)) =
                   TransitionPreset.cardStyleInterpolator (defaultTransitionPreset env props) \<and>
                 StackItem.headerStyleInterpolator (children (screens out ! i)) =
                   TransitionPreset.headerStyleInterpolator
                     (defaultTransitionPreset env props)))))"
proof -
  let ?rs = "items (Props.routes props)"
  let ?k = "key (?rs ! i)"
  from derived_scenes [OF assms(1)] have len: "length (State.scenes state') = length ?rs"
    by blast
  have res: "descriptor (State.scenes state' ! i) =
       (case lookup (Props.descriptors props) ?k of
          Some d \<Rightarrow> OwnProperty d
        | None \<Rightarrow>
            (case lookup (State.descriptors state) ?k of
               Some d \<Rightarrow> OwnProperty d
             | None \<Rightarrow>
                 (if i < length (State.scenes state) then descriptor (State.scenes state ! i)
                  else OwnProperty FALLBACK_DESCRIPTOR)))"
    unfolding derived_scene_fields(3) [OF assms(1,2)]
    using assms(3)
    by (cases "lookup (Props.descriptors props) ?k"; cases "lookup (State.descriptors state) ?k")
      (simp_all add: or_object_def descriptor_at_def read_property_def nth_opt_def)
  have rend: "\<exists>out. render env props state' = Inr out \<and>
           (lookup (Props.descriptors props) ?k = None \<and>
            lookup (State.descriptors state) ?k = None \<and>
            length (State.scenes state) \<le> i \<longrightarrow>
              descriptor (State.scenes state' ! i) = OwnProperty FALLBACK_DESCRIPTOR \<and>
              StackItem.scene (children (screens out ! i)) = State.scenes state' ! i \<and>
              StackItem.gestureDirection (children (screens out ! i)) =
                TransitionPreset.gestureDirection (defaultTransitionPreset env props) \<and>
              StackItem.gestureResponseDistance (children (screens out ! i)) = None \<and>
              StackItem.gestureVelocityImpact (children (screens out ! i)) = None \<and>
              (Suc i = length ?rs \<longrightarrow>
                 StackItem.transitionSpec (children (screens out ! i)) =
                   TransitionPreset.transitionSpec (defaultTransitionPreset env props) \<and>
                 StackItem.cardStyleInterpolator (children (screens out ! i)) =
                   TransitionPreset.cardStyleInterpolator (defaultTransitionPreset env props) \<and>
                 StackItem.headerStyleInterpolator (children (screens out ! i)) =
                   TransitionPreset.headerStyleInterpolator
                     (defaultTransitionPreset env props)))"
    if wf: "state_index (navigation props) < length (state_routes (navigation props)) \<and>
      (\<forall>r\<in>set ?rs. key r \<notin> set Object_prototype) \<and>
      (\<forall>sc\<in>set (State.scenes state). \<forall>m. descriptor sc \<noteq> PrototypeMember m) \<and>
      (Props.headerMode props = Float \<longrightarrow>
         key (state_routes (navigation props) ! state_index (navigation props)) \<notin>
           set Object_prototype)"
  proof -
    from wf have focus: "state_index (navigation props) < length (state_routes (navigation props))"
      and keys: "\<forall>r\<in>set ?rs. key r \<notin> set Object_prototype"
      and olds: "\<forall>sc\<in>set (State.scenes state). \<forall>m. descriptor sc \<noteq> PrototypeMember m"
      and fk: "Props.headerMode props = Float \<longrightarrow>
         key (state_routes (navigation props) ! state_index (navigation props)) \<notin>
           set Object_prototype"
      by blast+
    note news = derived_descriptors_defined [OF assms(1) keys olds]
    from len have le: "length ?rs \<le> length (State.scenes state')" by simp
    from render_total [OF focus le news fk] obtain out where
      r: "render env props state' = Inr out"
      by blast
    from render_screen [OF r assms(2)] obtain focusedRoute where
      rr: "render_route env props state' focusedRoute (?rs ! i) i ?rs = Inr (screens out ! i)"
      by blast
    from assms(2) len have sc: "nth_opt (State.scenes state') i = Some (State.scenes state' ! i)"
      by (simp add: nth_opt_def)
    from render_route_Inr [OF rr] sc have own:
      "StackItem.scene (children (screens out ! i)) = State.scenes state' ! i"
      "StackItem.gestureDirection (children (screens out ! i)) =
         or_default
           (NavigationStackOptions.gestureDirection
              (options_of (descriptor (State.scenes state' ! i))))
           (TransitionPreset.gestureDirection (defaultTransitionPreset env props))"
      "StackItem.gestureResponseDistance (children (screens out ! i)) =
         NavigationStackOptions.gestureResponseDistance
           (options_of (descriptor (State.scenes state' ! i)))"
      "StackItem.gestureVelocityImpact (children (screens out ! i)) =
         NavigationStackOptions.gestureVelocityImpact
           (options_of (descriptor (State.scenes state' ! i)))"
      by auto
    have "descriptor (State.scenes state' ! i) = OwnProperty FALLBACK_DESCRIPTOR \<and>
              StackItem.scene (children (screens out ! i)) = State.scenes state' ! i \<and>
              StackItem.gestureDirection (children (screens out ! i)) =
                TransitionPreset.gestureDirection (defaultTransitionPreset env props) \<and>
              StackItem.gestureResponseDistance (children (screens out ! i)) = None \<and>
              StackItem.gestureVelocityImpact (children (screens out ! i)) = None \<and>
              (Suc i = length ?rs \<longrightarrow>
                 StackItem.transitionSpec (children (screens out ! i)) =
                   TransitionPreset.transitionSpec (defaultTransitionPreset env props) \<and>
                 StackItem.cardStyleInterpolator (children (screens out ! i)) =
                   TransitionPreset.cardStyleInterpolator (defaultTransitionPreset env props) \<and>
                 StackItem.headerStyleInterpolator (children (screens out ! i)) =
                   TransitionPreset.headerStyleInterpolator
                     (defaultTransitionPreset env props))"
      if absent: "lookup (Props.descriptors props) ?k = None \<and>
            lookup (State.descriptors state) ?k = None \<and>
            length (State.scenes state) \<le> i"
    proof -
      from res absent have fb: "descriptor (State.scenes state' ! i) = OwnProperty FALLBACK_DESCRIPTOR"
        by simp
      have last: "StackItem.transitionSpec (children (screens out ! i)) =
                   TransitionPreset.transitionSpec (defaultTransitionPreset env props) \<and>
                 StackItem.cardStyleInterpolator (children (screens out ! i)) =
                   TransitionPreset.cardStyleInterpolator (defaultTransitionPreset env props) \<and>
                 StackItem.headerStyleInterpolator (children (screens out ! i)) =
                   TransitionPreset.headerStyleInterpolator
                     (defaultTransitionPreset env props)"
        if "Suc i = length ?rs"
        using render_route_last [OF rr that sc]
        by (simp add: fb options_of_fallback empty_options_def or_default_def)
      from own fb last show ?thesis
        by (simp add: options_of_fallback empty_options_def or_default_def)
    qed
    with r show ?thesis by blast
  qed
  from len res rend show ?thesis by blast
qed

theorem descriptor_resolution_witness:
  "lookup (Props.descriptors (example_props [route_A, route_B, route_C, route_D])) ''D'' = None \<and>
   descriptor (State.scenes (example_state ios [route_A, route_B, route_C, route_D]) ! 1) =
     OwnProperty descriptor_B \<and>
   descriptor (State.scenes (example_state ios [route_A, route_B, route_C, route_D]) ! 3) =
     OwnProperty FALLBACK_DESCRIPTOR \<and>
   (\<exists>out. render (example_env ios) (example_props [route_A, route_B, route_C, route_D])
             (example_state ios [route_A, route_B, route_C, route_D]) = Inr out \<and>
      StackItem.gestureDirection (children (screens out ! 3)) = GestureDirection ''horizontal'' \<and>
      StackItem.transitionSpec (children (screens out ! 3)) = TransitionSpec ''default'' \<and>
      StackItem.cardStyleInterpolator (children (screens out ! 3)) =
        CardStyleInterpolator ''default'' \<and>
      StackItem.headerStyleInterpolator (children (screens out ! 3)) =
        HeaderStyleInterpolator ''default'')"
proof -
  let ?E = "example_env ios"
  let ?P = "example_props [route_A, route_B, route_C, route_D]"
  let ?I = "initial_state ?E ?P 1"
  let ?S = "example_state ios [route_A, route_B, route_C, route_D]"
  note g = example_derived [of ios "[route_A, route_B, route_C, route_D]"]
  have i1: "1 < length (items (Props.routes ?P))" and i3: "3 < length (items (Props.routes ?P))"
    and last: "Suc 3 = length (items (Props.routes ?P))"
    by (simp_all add: example_props_def)
  have k: "key (items (Props.routes ?P) ! 1) = ''B''" "key (items (Props.routes ?P) ! 3) = ''D''"
    by (simp_all add: example_props_def route_B_def route_D_def)
  have np: "key (items (Props.routes ?P) ! 1) \<notin> set Object_prototype"
    "key (items (Props.routes ?P) ! 3) \<notin> set Object_prototype"
    unfolding k by (simp_all add: Object_prototype_def)
  have wf: "state_index (navigation ?P) < length (state_routes (navigation ?P)) \<and>
      (\<forall>r\<in>set (items (Props.routes ?P)). key r \<notin> set Object_prototype) \<and>
      (\<forall>sc\<in>set (State.scenes ?I). \<forall>m. descriptor sc \<noteq> PrototypeMember m) \<and>
      (Props.headerMode ?P = Float \<longrightarrow>
         key (state_routes (navigation ?P) ! state_index (navigation ?P)) \<notin>
           set Object_prototype)"
    by (simp add: example_props_def initial_state_def Object_prototype_def
          route_A_def route_B_def route_C_def route_D_def)
  have l: "lookup (Props.descriptors ?P) ''B'' = Some descriptor_B"
    "lookup (Props.descriptors ?P) ''D'' = None"
    "lookup (State.descriptors ?I) ''D'' = None"
    by (simp_all add: example_props_def initial_state_def lookup_def)
  have n: "length (State.scenes ?I) \<le> 3" by (simp add: initial_state_def)
  have p: "TransitionPreset.gestureDirection (defaultTransitionPreset ?E ?P) =
             GestureDirection ''horizontal''"
    "TransitionPreset.transitionSpec (defaultTransitionPreset ?E ?P) = TransitionSpec ''default''"
    "TransitionPreset.cardStyleInterpolator (defaultTransitionPreset ?E ?P) =
       CardStyleInterpolator ''default''"
    "TransitionPreset.headerStyleInterpolator (defaultTransitionPreset ?E ?P) =
       HeaderStyleInterpolator ''default''"
    by (simp_all add: defaultTransitionPreset_def example_props_def example_env_def)
  from descriptor_resolution [OF g i1 np(1), unfolded k l] have
    b: "descriptor (State.scenes ?S ! 1) = OwnProperty descriptor_B"
    by simp
  from descriptor_resolution [OF g i3 np(2)] wf obtain out where
    r: "render ?E ?P ?S = Inr out" and
    c: "lookup (Props.descriptors ?P) (key (items (Props.routes ?P) ! 3)) = None \<and>
        lookup (State.descriptors ?I) (key (items (Props.routes ?P) ! 3)) = None \<and>
        length (State.scenes ?I) \<le> 3 \<longrightarrow>
          descriptor (State.scenes ?S ! 3) = OwnProperty FALLBACK_DESCRIPTOR \<and>
          StackItem.scene (children (screens out ! 3)) = State.scenes ?S ! 3 \<and>
          StackItem.gestureDirection (children (screens out ! 3)) =
            TransitionPreset.gestureDirection (defaultTransitionPreset ?E ?P) \<and>
          StackItem.gestureResponseDistance (children (screens out ! 3)) = None \<and>
          StackItem.gestureVelocityImpact (children (screens out ! 3)) = None \<and>
          (Suc 3 = length (items (Props.routes ?P)) \<longrightarrow>
             StackItem.transitionSpec (children (screens out ! 3)) =
               TransitionPreset.transitionSpec (defaultTransitionPreset ?E ?P) \<and>
             StackItem.cardStyleInterpolator (children (screens out ! 3)) =
               TransitionPreset.cardStyleInterpolator (defaultTransitionPreset ?E ?P) \<and>
             StackItem.headerStyleInterpolator (children (screens out ! 3)) =
               TransitionPreset.headerStyleInterpolator (defaultTransitionPreset ?E ?P))"
    by blast
  from c [unfolded k l] l n last p have
    "descriptor (State.scenes ?S ! 3) = OwnProperty FALLBACK_DESCRIPTOR \<and>
     StackItem.gestureDirection (children (screens out ! 3)) = GestureDirection ''horizontal'' \<and>
     StackItem.transitionSpec (children (screens out ! 3)) = TransitionSpec ''default'' \<and>
     StackItem.cardStyleInterpolator (children (screens out ! 3)) =
       CardStyleInterpolator ''default'' \<and>
     StackItem.headerStyleInterpolator (children (screens out ! 3)) =
       HeaderStyleInterpolator ''default''"
    by simp
  with l b r show ?thesis by blast
qed

text \<open>
  Claim C8 as stated fails after the stack \<open>[B]\<close> is replaced by \<open>[A, D, C]\<close>.
  Route \<open>A\<close> is in neither descriptor map, and its scene takes the descriptor of the
  scene that was at index 0 before, which is \<open>B\<close>'s, not the placeholder. Route \<open>D\<close> is
  in neither map and has the placeholder, and the transition spec emitted for it is
  \<open>C\<close>'s, not the default of the mode. It also fails for a new stack with one route
  keyed \<open>constructor\<close>: the route is in neither map, its scene holds the member of
  \<open>Object.prototype\<close> as descriptor, and rendering throws.
\<close>

theorem descriptor_resolution_old_scene_counterexample:
  "lookup (Props.descriptors (example_props [route_A, route_D, route_C])) ''A'' = None \<and>
   lookup (State.descriptors (example_state ios [route_B])) ''A'' = None \<and>
   HeaderScene.route (State.scenes (fst example_state_next) ! 0) = route_A \<and>
   descriptor (State.scenes (fst example_state_next) ! 0) = OwnProperty descriptor_B \<and>
   descriptor_B \<noteq> FALLBACK_DESCRIPTOR \<and>
   lookup (Props.descriptors (example_props [route_A, route_D, route_C])) ''D'' = None \<and>
   lookup (State.descriptors (example_state ios [route_B])) ''D'' = None \<and>
   HeaderScene.route (State.scenes (fst example_state_next) ! 1) = route_D \<and>
   descriptor (State.scenes (fst example_state_next) ! 1) = OwnProperty FALLBACK_DESCRIPTOR \<and>
   \<not> isl (render (example_env ios) (example_props [route_A, route_D, route_C])
            (fst example_state_next)) \<and>
   StackItem.transitionSpec
     (children
        (screens
           (projr (render (example_env ios) (example_props [route_A, route_D, route_C])
                     (fst example_state_next))) ! 1)) = TransitionSpec ''C'' \<and>
   TransitionPreset.transitionSpec
     (defaultTransitionPreset (example_env ios) (example_props [route_A, route_D, route_C])) =
     TransitionSpec ''default'' \<and>
   lookup (Props.descriptors (example_props [route_K])) (key route_K) = None \<and>
   lookup (State.descriptors (initial_state (example_env ios) (example_props [route_K]) 1))
     (key route_K) = None \<and>
   HeaderScene.route (State.scenes (example_state ios [route_K]) ! 0) = route_K \<and>
   descriptor (State.scenes (example_state ios [route_K]) ! 0) = PrototypeMember ''constructor'' \<and>
   render (example_env ios) (example_props [route_K]) (example_state ios [route_K]) =
     Inl TypeError"
  by code_simp

section \<open>Activation and transition configuration\<close>

text \<open>
  Claim C3. For a scene that is not the last, when the state holds a next scene, the
  \<open>transitionSpec\<close>, \<open>cardStyleInterpolator\<close> and \<open>headerStyleInterpolator\<close> emitted
  for it are resolved from the options of the next scene's descriptor, each falling back
  to the default preset of the mode; \<open>gestureDirection\<close>, \<open>gestureResponseDistance\<close>
  and \<open>gestureVelocityImpact\<close> are resolved from the scene's own options.
\<close>

theorem look_ahead_override:
  assumes "render env props state = Inr out"
    and "Suc i < length (items (Props.routes props))"
    and "nth_opt (State.scenes state) (Suc i) = Some nextScene"
  shows
    "StackItem.transitionSpec (children (screens out ! i)) =
       or_default (NavigationStackOptions.transitionSpec (options_of (descriptor nextScene)))
         (TransitionPreset.transitionSpec (defaultTransitionPreset env props)) \<and>
     StackItem.cardStyleInterpolator (children (screens out ! i)) =
       or_default
         (NavigationStackOptions.cardStyleInterpolator (options_of (descriptor nextScene)))
         (TransitionPreset.cardStyleInterpolator (defaultTransitionPreset env props)) \<and>
     StackItem.headerStyleInterpolator (children (screens out ! i)) =
       or_default
         (NavigationStackOptions.headerStyleInterpolator (options_of (descriptor nextScene)))
         (TransitionPreset.headerStyleInterpolator (defaultTransitionPreset env props)) \<and>
     i < length (State.scenes state) \<and>
     StackItem.gestureDirection (children (screens out ! i)) =
       or_default
         (NavigationStackOptions.gestureDirection
            (options_of (descriptor (State.scenes state ! i))))
         (TransitionPreset.gestureDirection (defaultTransitionPreset env props)) \<and>
     StackItem.gestureResponseDistance (children (screens out ! i)) =
       NavigationStackOptions.gestureResponseDistance
         (options_of (descriptor (State.scenes state ! i))) \<and>
     StackItem.gestureVelocityImpact (children (screens out ! i)) =
       NavigationStackOptions.gestureVelocityImpact
         (options_of (descriptor (State.scenes state ! i)))"
proof -
  from assms(2) have i: "i < length (items (Props.routes props))" by simp
  from render_screen [OF assms(1) i] obtain focusedRoute where
    r: "render_route env props state focusedRoute (items (Props.routes props) ! i) i
       (items (Props.routes props)) = Inr (screens out ! i)"
    by blast
  from render_route_Inr [OF r] obtain sc where
    sc: "nth_opt (State.scenes state) i = Some sc" and
    own: "StackItem.gestureDirection (children (screens out ! i)) =
      or_default (NavigationStackOptions.gestureDirection (options_of (descriptor sc)))
        (TransitionPreset.gestureDirection (defaultTransitionPreset env props))"
      "StackItem.gestureResponseDistance (children (screens out ! i)) =
      NavigationStackOptions.gestureResponseDistance (options_of (descriptor sc))"
      "StackItem.gestureVelocityImpact (children (screens out ! i)) =
      NavigationStackOptions.gestureVelocityImpact (options_of (descriptor sc))"
    by blast
  from sc have lt: "i < length (State.scenes state)" and eq: "State.scenes state ! i = sc"
    by (auto simp: nth_opt_def split: if_splits)
  from render_route_next [OF r assms(2,3)] own lt eq show ?thesis by simp
qed

theorem look_ahead_override_witness:
  "\<exists>out. render (example_env ios) (example_props [route_A, route_B, route_C])
            (example_state ios [route_A, route_B, route_C]) = Inr out \<and>
     StackItem.transitionSpec (children (screens out ! 1)) = TransitionSpec ''C'' \<and>
     StackItem.cardStyleInterpolator (children (screens out ! 1)) =
       CardStyleInterpolator ''default'' \<and>
     StackItem.headerStyleInterpolator (children (screens out ! 1)) =
       HeaderStyleInterpolator ''C'' \<and>
     StackItem.gestureDirection (children (screens out ! 1)) = GestureDirection ''vertical'' \<and>
     StackItem.gestureResponseDistance (children (screens out ! 1)) = None \<and>
     StackItem.gestureVelocityImpact (children (screens out ! 1)) = Some 0.3"
proof -
  let ?E = "example_env ios"
  let ?P = "example_props [route_A, route_B, route_C]"
  let ?S = "example_state ios [route_A, route_B, route_C]"
  have "\<not> isl (render ?E ?P ?S)" by code_simp
  then obtain out where r: "render ?E ?P ?S = Inr out"
    by (cases "render ?E ?P ?S") simp_all
  have l: "Suc 1 < length (items (Props.routes ?P))" by (simp add: example_props_def)
  have n: "nth_opt (State.scenes ?S) (Suc 1) = Some (State.scenes ?S ! 2)" by code_simp
  have e:
    "or_default (NavigationStackOptions.transitionSpec (options_of (descriptor (State.scenes ?S ! 2))))
       (TransitionPreset.transitionSpec (defaultTransitionPreset ?E ?P)) = TransitionSpec ''C''"
    "or_default
       (NavigationStackOptions.cardStyleInterpolator (options_of (descriptor (State.scenes ?S ! 2))))
       (TransitionPreset.cardStyleInterpolator (defaultTransitionPreset ?E ?P)) =
       CardStyleInterpolator ''default''"
    "or_default
       (NavigationStackOptions.headerStyleInterpolator (options_of (descriptor (State.scenes ?S ! 2))))
       (TransitionPreset.headerStyleInterpolator (defaultTransitionPreset ?E ?P)) =
       HeaderStyleInterpolator ''C''"
    "or_default
       (NavigationStackOptions.gestureDirection (options_of (descriptor (State.scenes ?S ! 1))))
       (TransitionPreset.gestureDirection (defaultTransitionPreset ?E ?P)) =
       GestureDirection ''vertical''"
    "NavigationStackOptions.gestureResponseDistance (options_of (descriptor (State.scenes ?S ! 1))) =
       None"
    "NavigationStackOptions.gestureVelocityImpact (options_of (descriptor (State.scenes ?S ! 1))) =
       Some 0.3"
    by code_simp+
  from look_ahead_override [OF r l n] r show ?thesis
    unfolding e by blast
qed

text \<open>
  Claim C5. The activation of the screen at the last index is the constant 1. On a
  platform other than Android the screen second from the top has the constant 1 and
  every lower screen the constant 0. On Android every screen below the top has the node
  \<open>cond(eq(next, 1), 0, 1)\<close> on the progress of the next route: its value is 1 while
  that progress is not 1, and 0 once it equals 1.
\<close>

theorem screen_activation:
  assumes "render env props state = Inr out"
    and "i < length (items (Props.routes props))"
  shows
    "(Suc i = length (items (Props.routes props)) \<longrightarrow>
        MaybeScreen.active (screens out ! i) = Number 1) \<and>
     (Platform_OS env \<noteq> android \<longrightarrow> Suc (Suc i) = length (items (Props.routes props)) \<longrightarrow>
        MaybeScreen.active (screens out ! i) = Number 1) \<and>
     (Platform_OS env \<noteq> android \<longrightarrow> Suc (Suc i) < length (items (Props.routes props)) \<longrightarrow>
        MaybeScreen.active (screens out ! i) = Number 0) \<and>
     (Platform_OS env = android \<longrightarrow> Suc i < length (items (Props.routes props)) \<longrightarrow>
        (\<forall>p. State.progress state (key (items (Props.routes props) ! Suc i)) = Some p \<longrightarrow>
           MaybeScreen.active (screens out ! i) =
             Cond (Eq (Value p) (Number 1)) (Number 0) (Number 1) \<and>
           (\<forall>h v. animated h p = Some v \<longrightarrow>
              node_value h (MaybeScreen.active (screens out ! i)) =
                Some (if v = 1 then 0 else 1))))"
proof -
  from render_screen [OF assms] obtain focusedRoute where
    "render_route env props state focusedRoute (items (Props.routes props) ! i) i
       (items (Props.routes props)) = Inr (screens out ! i)"
    by blast
  from render_route_Inr [OF this] have a:
    "MaybeScreen.active (screens out ! i) =
       isScreenActive env i (items (Props.routes props))
         (case nth_opt (items (Props.routes props)) (i + 1) of
            Some r' \<Rightarrow> node_of (read_property (State.progress state) (key r'))
          | None \<Rightarrow> ANIMATED_ONE)"
    by blast
  show ?thesis
    unfolding a using assms(2)
    by (auto simp: isScreenActive_def nth_opt_def node_of_def read_property_def)
qed

theorem screen_activation_witness:
  "(\<exists>out. render (example_env ios) (example_props [route_A, route_B, route_C, route_D])
             (example_state ios [route_A, route_B, route_C, route_D]) = Inr out \<and>
      MaybeScreen.active (screens out ! 3) = Number 1 \<and>
      MaybeScreen.active (screens out ! 2) = Number 1 \<and>
      MaybeScreen.active (screens out ! 1) = Number 0 \<and>
      MaybeScreen.active (screens out ! 0) = Number 0) \<and>
   (\<exists>out. render (example_env android) (example_props [route_A, route_B])
             (example_state android [route_A, route_B]) = Inr out \<and>
      MaybeScreen.active (screens out ! 1) = Number 1 \<and>
      State.progress (example_state android [route_A, route_B]) ''B'' = Some 101 \<and>
      node_value (example_state_heap android [route_A, route_B])
        (MaybeScreen.active (screens out ! 0)) = Some 1 \<and>
      node_value
        ((example_state_heap android [route_A, route_B])
           \<lparr>animated := (animated (example_state_heap android [route_A, route_B]))(101 \<mapsto> 1)\<rparr>)
        (MaybeScreen.active (screens out ! 0)) = Some 0)"
proof -
  let ?P = "example_props [route_A, route_B, route_C, route_D]"
  let ?S = "example_state ios [route_A, route_B, route_C, route_D]"
  let ?Q = "example_props [route_A, route_B]"
  let ?T = "example_state android [route_A, route_B]"
  let ?H = "example_state_heap android [route_A, route_B]"
  have "\<not> isl (render (example_env ios) ?P ?S)" by code_simp
  then obtain out where r: "render (example_env ios) ?P ?S = Inr out"
    by (cases "render (example_env ios) ?P ?S") simp_all
  have "\<not> isl (render (example_env android) ?Q ?T)" by code_simp
  then obtain out' where r': "render (example_env android) ?Q ?T = Inr out'"
    by (cases "render (example_env android) ?Q ?T") simp_all
  have l: "length (items (Props.routes ?P)) = 4" and l': "length (items (Props.routes ?Q)) = 2"
    by (simp_all add: example_props_def)
  have os: "Platform_OS (example_env ios) \<noteq> android" "Platform_OS (example_env android) = android"
    by (simp_all add: example_env_def)
  have p: "State.progress ?T (key (items (Props.routes ?Q) ! Suc 0)) = Some 101" by code_simp
  have p': "State.progress ?T ''B'' = Some 101" by code_simp
  have v: "animated ?H 101 = Some 0" by code_simp
  have first: "MaybeScreen.active (screens out ! 3) = Number 1 \<and>
      MaybeScreen.active (screens out ! 2) = Number 1 \<and>
      MaybeScreen.active (screens out ! 1) = Number 0 \<and>
      MaybeScreen.active (screens out ! 0) = Number 0"
    using screen_activation [OF r, of 3] screen_activation [OF r, of 2]
      screen_activation [OF r, of 1] screen_activation [OF r, of 0] os
    by (simp add: l)
  from screen_activation [OF r', of 1] have top: "MaybeScreen.active (screens out' ! 1) = Number 1"
    by (simp add: l')
  from screen_activation [OF r', of 0] os p have
    c: "\<forall>h v. animated h 101 = Some v \<longrightarrow>
          node_value h (MaybeScreen.active (screens out' ! 0)) = Some (if v = 1 then 0 else 1)"
    by (simp add: l')
  from c v have live: "node_value ?H (MaybeScreen.active (screens out' ! 0)) = Some 1"
    by fastforce
  have "animated (?H\<lparr>animated := (animated ?H)(101 \<mapsto> 1)\<rparr>) 101 = Some 1" by simp
  with c have settled:
    "node_value (?H\<lparr>animated := (animated ?H)(101 \<mapsto> 1)\<rparr>)
       (MaybeScreen.active (screens out' ! 0)) = Some 0"
    by fastforce
  from r first r' top p' live settled show ?thesis by blast
qed

text \<open>
  Claim C10. In every render of every route list, the screen at index 0 is emitted with
  gestures disabled, whatever its descriptor and the gesture callback say; a screen at
  index 1 or higher is emitted with the value of the callback for its route.
\<close>

theorem bottom_screen_gestures_disabled:
  assumes "render env props state = Inr out"
    and "i < length (items (Props.routes props))"
  shows "(i = 0 \<longrightarrow> \<not> gestureEnabled (children (screens out ! i))) \<and>
         (0 < i \<longrightarrow>
            gestureEnabled (children (screens out ! i)) =
              getGesturesEnabled props (items (Props.routes props) ! i))"
proof -
  from render_screen [OF assms] obtain focusedRoute where
    "render_route env props state focusedRoute (items (Props.routes props) ! i) i
       (items (Props.routes props)) = Inr (screens out ! i)"
    by blast
  from render_route_Inr [OF this] show ?thesis by auto
qed

theorem bottom_screen_gestures_disabled_witness:
  "\<exists>out. render (example_env ios) (example_props [route_A, route_B, route_C, route_D])
            (example_state ios [route_A, route_B, route_C, route_D]) = Inr out \<and>
         \<not> gestureEnabled (children (screens out ! 0)) \<and>
         gestureEnabled (children (screens out ! 1))"
proof -
  let ?P = "example_props [route_A, route_B, route_C, route_D]"
  let ?S = "example_state ios [route_A, route_B, route_C, route_D]"
  have "\<not> isl (render (example_env ios) ?P ?S)" by code_simp
  then obtain out where r: "render (example_env ios) ?P ?S = Inr out"
    by (cases "render (example_env ios) ?P ?S") simp_all
  have l0: "0 < length (items (Props.routes ?P))" and l1: "1 < length (items (Props.routes ?P))"
    by (simp_all add: example_props_def)
  have g: "getGesturesEnabled ?P (items (Props.routes ?P) ! 1)"
    by (simp add: example_props_def)
  from bottom_screen_gestures_disabled [OF r l0] bottom_screen_gestures_disabled [OF r l1] g r
  show ?thesis by simp
qed

section \<open>Header heights and the floating header\<close>

text \<open>
  Claim C6, as amended. When a measured height \<open>H\<close> is reported for the route key \<open>K\<close>,
  an update sets the entry of \<open>K\<close> to \<open>H\<close> and changes no other entry and no other
  part of the state. No update occurs when the previous entry of \<open>K\<close> equals \<open>H\<close> and
  \<open>H\<close> is not 0; in every other case, also when both are 0, an update is issued.
\<close>

theorem header_height_report:
  "(\<forall>state'. handleFloatingHeaderLayout state r H = Some state' \<longrightarrow>
      state' = state\<lparr>floatingHeaderHeights := (floatingHeaderHeights state)(key r \<mapsto> H)\<rparr> \<and>
      floatingHeaderHeights state' (key r) = Some H \<and>
      (\<forall>k. k \<noteq> key r \<longrightarrow> floatingHeaderHeights state' k = floatingHeaderHeights state k)) \<and>
   (floatingHeaderHeights state (key r) = Some H \<and> H \<noteq> 0 \<longrightarrow>
      handleFloatingHeaderLayout state r H = None) \<and>
   (floatingHeaderHeights state (key r) \<noteq> Some H \<or> H = 0 \<longrightarrow>
      handleFloatingHeaderLayout state r H \<noteq> None)"
  by (auto simp: handleFloatingHeaderLayout_def Let_def read_property_def
        split: option.splits if_splits)

theorem header_height_report_witness:
  "floatingHeaderHeights (example_state ios [route_A, route_B]) ''A'' = Some 64 \<and>
   floatingHeaderHeights (example_state ios [route_A, route_B]) ''B'' = Some 64 \<and>
   (\<exists>state'. handleFloatingHeaderLayout (example_state ios [route_A, route_B]) route_A 80 =
        Some state' \<and>
      floatingHeaderHeights state' ''A'' = Some 80 \<and>
      floatingHeaderHeights state' ''B'' = Some 64) \<and>
   handleFloatingHeaderLayout (example_state ios [route_A, route_B]) route_A 64 = None"
proof -
  let ?S = "example_state ios [route_A, route_B]"
  have a: "floatingHeaderHeights ?S ''A'' = Some 64"
    by (simp add: example_defs derive_defs getFloatingHeaderHeights_lookup
          getDefaultHeaderHeight_def)
  have b: "floatingHeaderHeights ?S ''B'' = Some 64"
    by (simp add: example_defs derive_defs getFloatingHeaderHeights_lookup
          getDefaultHeaderHeight_def)
  have k: "key route_A = ''A''" by (simp add: route_A_def)
  note T = header_height_report [of ?S route_A 80]
  have "floatingHeaderHeights ?S (key route_A) \<noteq> Some 80 \<or> (80::real) = 0"
    using a k by simp
  with T have "handleFloatingHeaderLayout ?S route_A 80 \<noteq> None" by blast
  then obtain state' where s: "handleFloatingHeaderLayout ?S route_A 80 = Some state'"
    by blast
  with T have
    u: "floatingHeaderHeights state' (key route_A) = Some 80 \<and>
        (\<forall>k. k \<noteq> key route_A \<longrightarrow> floatingHeaderHeights state' k = floatingHeaderHeights ?S k)"
    by blast
  have "''B'' \<noteq> key route_A" by (simp add: k)
  with u have "floatingHeaderHeights state' ''B'' = floatingHeaderHeights ?S ''B''" by blast
  with u b k have
    c: "floatingHeaderHeights state' ''A'' = Some 80 \<and> floatingHeaderHeights state' ''B'' = Some 64"
    by simp
  have "floatingHeaderHeights ?S (key route_A) = Some 64 \<and> (64::real) \<noteq> 0"
    using a k by simp
  with header_height_report [of ?S route_A 64] have
    n: "handleFloatingHeaderLayout ?S route_A 64 = None"
    by blast
  from a b s c n show ?thesis by blast
qed

text \<open>
  Claim C6 as stated fails at \<open>H = 0\<close>: the previous entry of the key equals the
  reported height, and the handler still issues an update.
\<close>

theorem header_height_report_zero_counterexample:
  "floatingHeaderHeights
     ((example_state ios [route_A, route_B])\<lparr>floatingHeaderHeights := [''A'' \<mapsto> 0]\<rparr>)
     (key route_A) = Some 0 \<and>
   handleFloatingHeaderLayout
     ((example_state ios [route_A, route_B])\<lparr>floatingHeaderHeights := [''A'' \<mapsto> 0]\<rparr>)
     route_A 0 \<noteq> None"
  by (simp add: handleFloatingHeaderLayout_def route_A_def read_property_def)

text \<open>
  Claim C7: a layout change rebuilds the header-height map with the default height of
  the new layout for every route. The code does so for every route whose key names no
  member of \<open>Object.prototype\<close> (\<open>layout_change_default_heights\<close>). It reads the
  previous heights from the empty object \<open>{}\<close>, and for a route keyed \<open>constructor\<close>
  that read finds the inherited function, which is truthy: after the layout changes to
  667 by 375, route \<open>A\<close> has the default 52, and the entry read for the route keyed
  \<open>constructor\<close> is the member of \<open>Object.prototype\<close>, not a height.
\<close>

theorem layout_change_constructor_key:
  "handleLayout (example_env ios) (example_props [route_A, route_K])
     (example_state ios [route_A, route_K]) \<lparr>width = 667, height = 375\<rparr> \<noteq> None \<and>
   floatingHeaderHeights
     (the (handleLayout (example_env ios) (example_props [route_A, route_K])
             (example_state ios [route_A, route_K]) \<lparr>width = 667, height = 375\<rparr>)) ''A'' =
     Some 52 \<and>
   floatingHeaderHeights
     (the (handleLayout (example_env ios) (example_props [route_A, route_K])
             (example_state ios [route_A, route_K]) \<lparr>width = 667, height = 375\<rparr>))
     (key route_K) = None \<and>
   read_property
     (floatingHeaderHeights
        (the (handleLayout (example_env ios) (example_props [route_A, route_K])
                (example_state ios [route_A, route_K]) \<lparr>width = 667, height = 375\<rparr>)))
     (key route_K) = PrototypeMember ''constructor''"
  by (simp add: example_defs derive_defs handleLayout_def getFloatingHeaderHeights_lookup
        getDefaultHeaderHeight_def)

text \<open>
  Claim C9. When the header mode is \<open>float\<close>, one floating header is rendered, outside
  the loop over the routes; its style interpolator is the \<open>headerStyleInterpolator\<close>
  option of the focused route when that option is defined, and the header interpolator
  of the preset of the mode when the focused route has no descriptor or leaves the
  option undefined. In any other header mode no floating header is rendered.
\<close>

theorem floating_header_interpolator:
  assumes "render env props state = Inr out"
  shows "(Props.headerMode props \<noteq> Float \<longrightarrow> floatingHeader out = None) \<and>
         (Props.headerMode props = Float \<longrightarrow>
            (\<exists>focusedRoute hp.
               nth_opt (state_routes (navigation props)) (state_index (navigation props)) =
                 Some focusedRoute \<and>
               floatingHeader out = Some hp \<and>
               styleInterpolator hp =
                 (case lookup (Props.descriptors props) (key focusedRoute) of
                    None \<Rightarrow>
                      TransitionPreset.headerStyleInterpolator
                        (if Props.mode props = Modal then ModalTransition env
                         else DefaultTransition env)
                  | Some d \<Rightarrow>
                      (case NavigationStackOptions.headerStyleInterpolator (options d) of
                         Some interpolator \<Rightarrow> interpolator
                       | None \<Rightarrow>
                           TransitionPreset.headerStyleInterpolator
                             (if Props.mode props = Modal then ModalTransition env
                              else DefaultTransition env)))))"
proof -
  let ?D = "TransitionPreset.headerStyleInterpolator
              (if Props.mode props = Modal then ModalTransition env else DefaultTransition env)"
  from render_Inr [OF assms] obtain focusedRoute where
    f: "nth_opt (state_routes (navigation props)) (state_index (navigation props)) =
          Some focusedRoute" and
    nm: "Props.headerMode props = Float \<longrightarrow>
           (\<forall>m. descriptor_at (Props.descriptors props) (key focusedRoute) \<noteq> PrototypeMember m)" and
    h: "floatingHeader out =
          (if Props.headerMode props = Float then
             Some \<lparr>HeaderContainerProps.mode = Float,
                   HeaderContainerProps.layout = State.layout state,
                   HeaderContainerProps.scenes = State.scenes state,
                   styleInterpolator =
                     or_default
                       (NavigationStackOptions.headerStyleInterpolator
                          (options_of
                             (descriptor_at (Props.descriptors props) (key focusedRoute))))
                       (TransitionPreset.headerStyleInterpolator
                          (defaultTransitionPreset env props))\<rparr>
           else None)"
    by blast
  show ?thesis
  proof (intro conjI impI)
    assume "Props.headerMode props \<noteq> Float"
    with h show "floatingHeader out = None" by simp
  next
    assume fl: "Props.headerMode props = Float"
    then have d: "defaultTransitionPreset env props =
        (if Props.mode props = Modal then ModalTransition env else DefaultTransition env)"
      by (simp add: defaultTransitionPreset_def)
    have o: "or_default
               (NavigationStackOptions.headerStyleInterpolator
                  (options_of (descriptor_at (Props.descriptors props) (key focusedRoute))))
               ?D =
             (case lookup (Props.descriptors props) (key focusedRoute) of
                None \<Rightarrow> ?D
              | Some d \<Rightarrow>
                  (case NavigationStackOptions.headerStyleInterpolator (options d) of
                     Some interpolator \<Rightarrow> interpolator
                   | None \<Rightarrow> ?D))"
    proof (cases "lookup (Props.descriptors props) (key focusedRoute)")
      case None
      with nm fl have "descriptor_at (Props.descriptors props) (key focusedRoute) = NoProperty"
        by (cases "descriptor_at (Props.descriptors props) (key focusedRoute)")
          (simp_all add: descriptor_at_cases)
      with None show ?thesis
        by (simp add: options_of_def empty_options_def or_default_def)
    next
      case (Some d)
      then have "descriptor_at (Props.descriptors props) (key focusedRoute) = OwnProperty d"
        by (simp add: descriptor_at_cases)
      with Some show ?thesis
        by (simp add: options_of_def or_default_def split: option.splits)
    qed
    from fl h have
      "floatingHeader out =
         Some \<lparr>HeaderContainerProps.mode = Float,
               HeaderContainerProps.layout = State.layout state,
               HeaderContainerProps.scenes = State.scenes state,
               styleInterpolator =
                 or_default
                   (NavigationStackOptions.headerStyleInterpolator
                      (options_of (descriptor_at (Props.descriptors props) (key focusedRoute))))
                   ?D\<rparr>"
      by (simp add: d)
    with f o show "\<exists>focusedRoute hp.
               nth_opt (state_routes (navigation props)) (state_index (navigation props)) =
                 Some focusedRoute \<and>
               floatingHeader out = Some hp \<and>
               styleInterpolator hp =
                 (case lookup (Props.descriptors props) (key focusedRoute) of
                    None \<Rightarrow>
                      TransitionPreset.headerStyleInterpolator
                        (if Props.mode props = Modal then ModalTransition env
                         else DefaultTransition env)
                  | Some d \<Rightarrow>
                      (case NavigationStackOptions.headerStyleInterpolator (options d) of
                         Some interpolator \<Rightarrow> interpolator
                       | None \<Rightarrow>
                           TransitionPreset.headerStyleInterpolator
                             (if Props.mode props = Modal then ModalTransition env
                              else DefaultTransition env)))"
      by simp
  qed
qed

theorem floating_header_interpolator_witness:
  "\<exists>out hp. render (example_env ios) (example_props [route_A, route_B, route_C])
            (example_state ios [route_A, route_B, route_C]) = Inr out \<and>
         floatingHeader out = Some hp \<and> styleInterpolator hp = HeaderStyleInterpolator ''C''"
proof -
  let ?P = "example_props [route_A, route_B, route_C]"
  let ?S = "example_state ios [route_A, route_B, route_C]"
  have "\<not> isl (render (example_env ios) ?P ?S)" by code_simp
  then obtain out where r: "render (example_env ios) ?P ?S = Inr out"
    by (cases "render (example_env ios) ?P ?S") simp_all
  have m: "Props.headerMode ?P = Float" by (simp add: example_props_def)
  have f: "nth_opt (state_routes (navigation ?P)) (state_index (navigation ?P)) = Some route_C"
    by (simp add: example_props_def nth_opt_def)
  have d: "lookup (Props.descriptors ?P) (key route_C) = Some descriptor_C"
    by (simp add: example_props_def lookup_def route_C_def)
  have i: "NavigationStackOptions.headerStyleInterpolator (options descriptor_C) =
             Some (HeaderStyleInterpolator ''C'')"
    by (simp add: descriptor_C_def empty_options_def)
  from floating_header_interpolator [OF r] m f d i r show ?thesis by auto
qed

end
